theory Spec2Isabelle
  imports Complex_Main "HOL-Library.AList"
begin

section \<open>Values and exceptions\<close>

text \<open>
  A Python float as the engine sees it: a number or \<open>np.nan\<close>. Numbers are reals, so
  rounding is not modelled; what the development follows is where NaN comes from and where
  it goes.
\<close>

datatype pyfloat = Float real | NaN

text \<open>
  Exceptions. \<open>PipelineScoreError\<close> carries its two dictionaries: \<open>exceptions\<close>
  (objective name to a description of the failure) and \<open>scored_successfully\<close>
  (objective name to score). \<open>Exception\<close> is any other exception derived from Python's
  \<open>Exception\<close>, with its message; \<open>BaseException\<close> is one that is not (a
  \<open>KeyboardInterrupt\<close>, say), which \<open>except Exception\<close> lets through.
\<close>

datatype exn =
    PipelineScoreError "(string \<times> string) list" "(string \<times> pyfloat) list"
  | Exception string
  | KeyError string
  | NameError string
  | IndexError string
  | BaseException string

fun is_Exception :: "exn \<Rightarrow> bool" where
  "is_Exception (BaseException _) = False"
| "is_Exception _ = True"

fun is_PipelineScoreError :: "exn \<Rightarrow> bool" where
  "is_PipelineScoreError (PipelineScoreError _ _) = True"
| "is_PipelineScoreError _ = False"

section \<open>JobLogger\<close>

text \<open>
  \<open>JobLogger.logs\<close> is a list of (level, message) pairs; the four logging methods append
  to it.
\<close>

record JobLogger =
  logs :: "(string \<times> string) list"

definition JobLogger_init :: JobLogger where
  "JobLogger_init = \<lparr>logs = []\<rparr>"

definition info :: "string \<Rightarrow> JobLogger \<Rightarrow> JobLogger" where
  "info msg self = self\<lparr>logs := logs self @ [(''info'', msg)]\<rparr>"

definition debug :: "string \<Rightarrow> JobLogger \<Rightarrow> JobLogger" where
  "debug msg self = self\<lparr>logs := logs self @ [(''debug'', msg)]\<rparr>"

definition warning :: "string \<Rightarrow> JobLogger \<Rightarrow> JobLogger" where
  "warning msg self = self\<lparr>logs := logs self @ [(''warning'', msg)]\<rparr>"

definition error :: "string \<Rightarrow> JobLogger \<Rightarrow> JobLogger" where
  "error msg self = self\<lparr>logs := logs self @ [(''error'', msg)]\<rparr>"

text \<open>
  The logger that \<open>write_to_logger\<close> writes to: an object with the four methods of a
  \<open>logging.Logger\<close>, each acting on that logger's own state \<open>'s\<close>. It is an object
  other than the JobLogger itself, and its methods return normally.
\<close>

record 's target_logger =
  logger_info :: "string \<Rightarrow> 's \<Rightarrow> 's"
  logger_debug :: "string \<Rightarrow> 's \<Rightarrow> 's"
  logger_warning :: "string \<Rightarrow> 's \<Rightarrow> 's"
  logger_error :: "string \<Rightarrow> 's \<Rightarrow> 's"

text \<open>The dictionary \<open>logger_method\<close> of \<open>write_to_logger\<close>, in its order.\<close>

definition logger_method :: "'s target_logger \<Rightarrow> (string \<times> (string \<Rightarrow> 's \<Rightarrow> 's)) list" where
  "logger_method logger =
     [(''info'', logger_info logger),
      (''debug'', logger_debug logger),
      (''warning'', logger_warning logger),
      (''error'', logger_warning logger)]"

text \<open>
  The \<open>for\<close> loop of \<open>write_to_logger\<close>. \<open>logger_method[level]\<close> raises
  \<open>KeyError\<close> on a level that is not a key; what was written before stays written.
\<close>

fun replay :: "'s target_logger \<Rightarrow> (string \<times> string) list \<Rightarrow> 's \<Rightarrow> exn option \<times> 's" where
  "replay logger [] s = (None, s)"
| "replay logger ((level, message) # rest) s =
     (case map_of (logger_method logger) level of
        None \<Rightarrow> (Some (KeyError level), s)
      | Some method \<Rightarrow> replay logger rest (method message s))"

text \<open>
  \<open>write_to_logger\<close> returns what it raised (if anything), the JobLogger after the call
  and the target's state after the call.
\<close>

definition write_to_logger ::
  "JobLogger \<Rightarrow> 's target_logger \<Rightarrow> 's \<Rightarrow> exn option \<times> JobLogger \<times> 's" where
  "write_to_logger self logger s =
     (case replay logger (logs self) s of (r, s') \<Rightarrow> (r, self, s'))"

subsection \<open>Vocabulary of the specification of the JobLogger\<close>

text \<open>A call of one of the four logging methods, as the specification speaks of it.\<close>

datatype log_call = Info string | Debug string | Warning string | Error string

fun apply_call :: "log_call \<Rightarrow> JobLogger \<Rightarrow> JobLogger" where
  "apply_call (Info m) jl = info m jl"
| "apply_call (Debug m) jl = debug m jl"
| "apply_call (Warning m) jl = warning m jl"
| "apply_call (Error m) jl = error m jl"

text \<open>The (level, message) pair the specification expects for a call.\<close>

fun spec_entry :: "log_call \<Rightarrow> string \<times> string" where
  "spec_entry (Info m) = (''info'', m)"
| "spec_entry (Debug m) = (''debug'', m)"
| "spec_entry (Warning m) = (''warning'', m)"
| "spec_entry (Error m) = (''error'', m)"

text \<open>
  The call on the target the specification expects when a buffered call is replayed:
  the method of the same name, but \<open>warning\<close> for a buffered \<open>error\<close>.
\<close>

fun spec_replayed :: "'s target_logger \<Rightarrow> log_call \<Rightarrow> 's \<Rightarrow> 's" where
  "spec_replayed logger (Info m) = logger_info logger m"
| "spec_replayed logger (Debug m) = logger_debug logger m"
| "spec_replayed logger (Warning m) = logger_warning logger m"
| "spec_replayed logger (Error m) = logger_warning logger m"

text \<open>
  A target that only records the calls made on it, as (method name, message) pairs.
\<close>

definition recording_logger :: "(string \<times> string) list target_logger" where
  "recording_logger =
     \<lparr>logger_info = (\<lambda>m s. s @ [(''info'', m)]),
      logger_debug = (\<lambda>m s. s @ [(''debug'', m)]),
      logger_warning = (\<lambda>m s. s @ [(''warning'', m)]),
      logger_error = (\<lambda>m s. s @ [(''error'', m)])\<rparr>"

text \<open>What the recording target is expected to hold after a replay of the buffer.\<close>

definition downgraded :: "(string \<times> string) list \<Rightarrow> (string \<times> string) list" where
  "downgraded entries =
     map (\<lambda>(level, m). (if level = ''error'' then ''warning'' else level, m)) entries"

section \<open>Data of the evaluation engine\<close>

text \<open>
  A feature table is its rows, each with its index label; \<open>X.index\<close> is the list of the
  labels. A target series is the list of its values (labels of a classification problem
  are integers here). Row positions, as a data splitter yields them, are naturals.
\<close>

type_synonym 'x frame = "(int \<times> 'x) list"

type_synonym series = "int list"

datatype objective = Objective (name: string)

datatype schema = Schema string

text \<open>
  \<open>ProblemTypes\<close>: this module names the members \<open>BINARY\<close> and \<open>MULTICLASS\<close>; every
  other member of the enumeration is \<open>OTHER\<close> with its name.
\<close>

datatype ProblemTypes = BINARY | MULTICLASS | OTHER string

text \<open>
  The configuration (\<open>automl_config\<close>). The data splitter is its \<open>split\<close> method, which
  yields a finite sequence of (train, validation) positions. The error callback is a
  reference \<open>'cb\<close> to a callable; calling it is in the collaborators below.
\<close>

record ('x, 'cb) automl_config =
  objective :: objective
  additional_objectives :: "objective list"
  data_splitter :: "'x frame \<Rightarrow> series \<Rightarrow> (nat list \<times> nat list) list"
  problem_type :: ProblemTypes
  optimize_thresholds :: bool
  X_schema :: "schema option"
  y_schema :: "schema option"
  error_callback :: "'cb option"

text \<open>
  A pipeline, as far as this module reads it: its problem type, its decision threshold
  (\<open>None\<close> or a float) and the component instances of its component graph.
\<close>

record 'c pipeline =
  pipeline_problem_type :: ProblemTypes
  threshold :: "real option"
  component_instances :: 'c

text \<open>
  What this module calls and does not define: the helpers of \<open>evalml.problem_types\<close> and
  \<open>evalml.automl.utils\<close>, the methods of the pipeline, the call of the error callback,
  woodwork's schema initialisation, pandas' \<open>y.value_counts().index\<close>, and the Python
  built-ins that format a traceback, hash a tuple, format a float with \<open>.3f\<close> and print
  a set. Each is a function of its arguments that returns a value or raises (\<open>Inl\<close>);
  \<open>call_error_callback\<close> returns what the callback raised, if anything (its return
  value is ignored by the caller). Methods that mutate the pipeline return the pipeline
  after the call.

  \<open>value_counts_index y\<close> is \<open>y.value_counts().index\<close>: the distinct values of \<open>y\<close> by
  descending count. In which order pandas gives values of equal count depends on its
  version and on the sorting routine underneath, and this module does not determine it;
  so the order is left to the collaborator, and \<open>value_counts_order\<close> below says what
  every such index satisfies.
\<close>

record ('x, 'c, 'cb) collaborators =
  is_classification :: "ProblemTypes \<Rightarrow> bool"
  is_binary :: "ProblemTypes \<Rightarrow> bool"
  handle_problem_types :: "ProblemTypes \<Rightarrow> ProblemTypes"
  get_threshold_tuning_info ::
    "('x, 'cb) automl_config \<Rightarrow> 'c pipeline \<Rightarrow> exn + (objective option \<times> bool)"
  resplit_training_data ::
    "'c pipeline \<Rightarrow> 'x frame \<Rightarrow> series \<Rightarrow> exn + ('x frame \<times> 'x frame \<times> series \<times> series)"
  pipeline_clone :: "'c pipeline \<Rightarrow> exn + 'c pipeline"
  pipeline_fit :: "'c pipeline \<Rightarrow> 'x frame \<Rightarrow> series \<Rightarrow> exn + 'c pipeline"
  tune_binary_threshold ::
    "'c pipeline \<Rightarrow> objective option \<Rightarrow> ProblemTypes \<Rightarrow> 'x frame option \<Rightarrow> series option
       \<Rightarrow> 'x frame \<Rightarrow> series \<Rightarrow> exn + 'c pipeline"
  pipeline_score ::
    "'c pipeline \<Rightarrow> 'x frame \<Rightarrow> series \<Rightarrow> objective list \<Rightarrow> 'x frame \<Rightarrow> series
       \<Rightarrow> exn + (string \<times> pyfloat) list"
  call_error_callback ::
    "'cb \<Rightarrow> exn \<Rightarrow> string list \<Rightarrow> ('x, 'cb) automl_config \<Rightarrow> nat \<Rightarrow> 'c pipeline \<Rightarrow> exn option"
  ww_init_X :: "schema \<Rightarrow> 'x frame \<Rightarrow> exn + 'x frame"
  ww_init_y :: "schema \<Rightarrow> series \<Rightarrow> exn + series"
  value_counts_index :: "series \<Rightarrow> int list"
  format_tb :: "exn \<Rightarrow> string list"
  hash_tuple :: "int list \<Rightarrow> int"
  format_3f :: "pyfloat \<Rightarrow> string"
  repr_set :: "int list \<Rightarrow> string"

text \<open>
  The history of the calls made during an evaluation, kept beside the program's own state
  so that how often, in which order and on which data an operation ran can be stated:
  a call of \<open>train_pipeline\<close> by \<open>_train_and_score\<close> (pipeline, X, y), a call of the fitted
  pipeline's \<open>score\<close> (pipeline, X, y, objectives, X_train, y_train), and a call of the error
  callback (callback, exception, traceback, automl, fold_num, pipeline).
\<close>

datatype ('x, 'c, 'cb) call =
    Train_pipeline_call "'c pipeline" "'x frame" series
  | Score_call "'c pipeline" "'x frame" series "objective list" "'x frame" series
  | Error_callback_call 'cb exn "string list" "('x, 'cb) automl_config" nat "'c pipeline"

fun is_Train_pipeline_call :: "('x, 'c, 'cb) call \<Rightarrow> bool" where
  "is_Train_pipeline_call (Train_pipeline_call _ _ _) = True"
| "is_Train_pipeline_call _ = False"

fun is_Error_callback_call :: "('x, 'c, 'cb) call \<Rightarrow> bool" where
  "is_Error_callback_call (Error_callback_call _ _ _ _ _ _) = True"
| "is_Error_callback_call _ = False"

text \<open>
  The state \<open>train_and_score_pipeline\<close> changes: the logger it was given (a JobLogger),
  its dictionary \<open>pipeline_cache\<close> (insertion-ordered, as every Python dictionary), and the
  history of calls.
\<close>

record ('x, 'c, 'cb) state =
  logger :: JobLogger
  pipeline_cache :: "(int option \<times> 'c) list"
  calls :: "('x, 'c, 'cb) call list"

text \<open>A value of \<open>all_objective_scores\<close>: a score, or a number of rows.\<close>

datatype entry_value = Score pyfloat | Size nat

record evaluation_entry =
  all_objective_scores :: "(string \<times> entry_value) list"
  mean_cv_score :: pyfloat
  binary_classification_threshold :: "real option"

text \<open>
  The dictionary \<open>train_and_score_pipeline\<close> returns, but for \<open>training_time\<close>, a
  difference of two readings of the wall clock. \<open>holdout_scores\<close> is the dictionary of
  the holdout pass.
\<close>

record scores_dict =
  cv_data :: "evaluation_entry list"
  cv_scores :: "pyfloat list"
  cv_score_mean :: pyfloat
  holdout_score :: "pyfloat option"
  holdout_scores :: "(string \<times> pyfloat) list option"

record ('c) evaluation_result =
  result_scores :: scores_dict
  result_cached_data :: "(int option \<times> 'c) list"
  result_pipeline :: "'c pipeline"
  result_logger :: JobLogger

section \<open>Library operations the engine uses\<close>

text \<open>Python dictionaries keep insertion order; \<open>d[k] = v\<close> is \<open>AList.update k v d\<close>.\<close>

definition dict_update :: "('k \<times> 'v) list \<Rightarrow> ('k \<times> 'v) list \<Rightarrow> ('k \<times> 'v) list" where
  "dict_update d other = fold (\<lambda>(k, v). AList.update k v) other d"

definition dict_of :: "('k \<times> 'v) list \<Rightarrow> ('k \<times> 'v) list" where
  "dict_of pairs = dict_update [] pairs"

text \<open>\<open>str(i)\<close> for a non-negative integer.\<close>

definition digit :: "nat \<Rightarrow> char" where
  "digit d = ''0123456789'' ! d"

function str :: "nat \<Rightarrow> string" where
  "str n = (if n < 10 then [digit n] else str (n div 10) @ [digit (n mod 10)])"
  by pat_completeness auto
termination
  by (relation "measure id") auto

declare str.simps [simp del]

definition tab :: string where
  "tab = [CHR 0x09]"

text \<open>
  \<open>df.ww.iloc[positions]\<close>: the rows at the positions, in their order; a position past
  the end raises \<open>IndexError\<close>.
\<close>

definition iloc :: "'a list \<Rightarrow> nat list \<Rightarrow> exn + 'a list" where
  "iloc rows positions =
     (if \<forall>i \<in> set positions. i < length rows
      then Inr (map (\<lambda>i. rows ! i) positions)
      else Inl (IndexError ''positional indexers are out-of-bounds''))"

text \<open>
  What \<open>y.value_counts().index\<close> satisfies whatever the order among equal counts: it
  holds each value of \<open>y\<close> once, a more frequent value never after a less frequent one.
\<close>

definition value_counts_order :: "series \<Rightarrow> int list \<Rightarrow> bool" where
  "value_counts_order y index \<longleftrightarrow>
     distinct index \<and> set index = set y
     \<and> sorted_wrt (\<lambda>a b. count_list y b \<le> count_list y a) index"

text \<open>
  \<open>np.setdiff1d(a, b)\<close>: the sorted distinct values of \<open>a\<close> that are not in \<open>b\<close>.
\<close>

definition setdiff1d :: "int list \<Rightarrow> int list \<Rightarrow> int list" where
  "setdiff1d a b = sort (remdups (filter (\<lambda>v. v \<notin> set b) a))"

text \<open>
  \<open>pd.Series(values).mean()\<close>. The method's \<open>skipna\<close> defaults to \<open>True\<close>: NaN
  values are left out of both the sum and the count, and the mean of no values is NaN.
\<close>

definition dropna :: "pyfloat list \<Rightarrow> real list" where
  "dropna values = concat (map (\<lambda>v. case v of Float r \<Rightarrow> [r] | NaN \<Rightarrow> []) values)"

definition series_mean :: "pyfloat list \<Rightarrow> pyfloat" where
  "series_mean values =
     (let present = dropna values
      in if present = [] then NaN else Float (sum_list present / real (length present)))"

section \<open>\<open>train_pipeline\<close>\<close>

definition train_pipeline ::
  "('x, 'c, 'cb) collaborators \<Rightarrow> 'c pipeline \<Rightarrow> 'x frame \<Rightarrow> series \<Rightarrow> ('x, 'cb) automl_config
     \<Rightarrow> bool \<Rightarrow> bool \<Rightarrow> exn + ('c pipeline \<times> int option)" where
  "train_pipeline env pipeline X y automl_config use_schema get_hashes =
     (case (case X_schema automl_config of
              Some sx \<Rightarrow> if use_schema then ww_init_X env sx X else Inr X
            | None \<Rightarrow> Inr X) of
        Inl e \<Rightarrow> Inl e
      | Inr X \<Rightarrow>
     (case (case y_schema automl_config of
              Some sy \<Rightarrow> if use_schema then ww_init_y env sy y else Inr y
            | None \<Rightarrow> Inr y) of
        Inl e \<Rightarrow> Inl e
      | Inr y \<Rightarrow>
     (case get_threshold_tuning_info env automl_config pipeline of
        Inl e \<Rightarrow> Inl e
      | Inr (threshold_tuning_objective, data_needs_resplitting) \<Rightarrow>
     (case (if data_needs_resplitting
            then (case resplit_training_data env pipeline X y of
                    Inl e \<Rightarrow> Inl e
                  | Inr (X', X_tt, y', y_tt) \<Rightarrow> Inr (X', Some X_tt, y', Some y_tt))
            else Inr (X, None, y, None)) of
        Inl e \<Rightarrow> Inl e
      | Inr (X, X_threshold_tuning, y, y_threshold_tuning) \<Rightarrow>
     (case pipeline_clone env pipeline of
        Inl e \<Rightarrow> Inl e
      | Inr cv_pipeline \<Rightarrow>
     (case pipeline_fit env cv_pipeline X y of
        Inl e \<Rightarrow> Inl e
      | Inr cv_pipeline \<Rightarrow>
     (case tune_binary_threshold env cv_pipeline threshold_tuning_objective
             (pipeline_problem_type cv_pipeline) X_threshold_tuning y_threshold_tuning X y of
        Inl e \<Rightarrow> Inl e
      | Inr cv_pipeline \<Rightarrow>
          if \<not> get_hashes then Inr (cv_pipeline, None)
          else Inr (cv_pipeline, Some (hash_tuple env (map fst X))))))))))"

section \<open>\<open>train_and_score_pipeline\<close>\<close>

subsection \<open>The inner function \<open>_train_and_score\<close>\<close>

definition log_debug :: "string \<Rightarrow> ('x, 'c, 'cb) state \<Rightarrow> ('x, 'c, 'cb) state" where
  "log_debug msg st = st\<lparr>logger := debug msg (logger st)\<rparr>"

definition log_info :: "string \<Rightarrow> ('x, 'c, 'cb) state \<Rightarrow> ('x, 'c, 'cb) state" where
  "log_info msg st = st\<lparr>logger := info msg (logger st)\<rparr>"

definition record_call :: "('x, 'c, 'cb) call \<Rightarrow> ('x, 'c, 'cb) state \<Rightarrow> ('x, 'c, 'cb) state" where
  "record_call c st = st\<lparr>calls := calls st @ [c]\<rparr>"

text \<open>
  The body of the \<open>try\<close>. On success it returns \<open>score\<close>, \<open>scores\<close> and the fitted
  pipeline; when a statement raises, it returns the exception together with the value the
  variable \<open>fitted_pipeline\<close> has at that moment (the pipeline passed in until
  \<open>train_pipeline\<close> has returned, the fitted clone from then on).
\<close>

definition try_train_and_score ::
  "('x, 'c, 'cb) collaborators \<Rightarrow> 'c pipeline \<Rightarrow> ('x, 'cb) automl_config \<Rightarrow> string
     \<Rightarrow> 'x frame \<Rightarrow> 'x frame \<Rightarrow> series \<Rightarrow> series \<Rightarrow> ('x, 'c, 'cb) state
     \<Rightarrow> ((exn \<times> 'c pipeline) + (pyfloat \<times> (string \<times> pyfloat) list \<times> 'c pipeline))
         \<times> ('x, 'c, 'cb) state" where
  "try_train_and_score env pipeline automl_config prefix X_train X_score y_train y_score st =
     (let objectives_to_score = objective automl_config # additional_objectives automl_config;
          st = log_debug (tab @ tab @ tab @ prefix @ '': starting training'') st;
          st = record_call (Train_pipeline_call pipeline X_train y_train) st
      in case train_pipeline env pipeline X_train y_train automl_config False True of
           Inl e \<Rightarrow> (Inl (e, pipeline), st)
         | Inr (fitted_pipeline, hashes) \<Rightarrow>
             (let st = log_debug (tab @ tab @ tab @ prefix @ '': finished training'') st;
                  st = (case threshold fitted_pipeline of
                          Some t \<Rightarrow>
                            if optimize_thresholds automl_config
                               \<and> is_binary env (problem_type automl_config)
                            then log_debug (tab @ tab @ tab @ prefix
                                   @ '': Optimal threshold found ('' @ format_3f env (Float t)
                                   @ '')'') st
                            else st
                        | None \<Rightarrow> st);
                  st = log_debug (tab @ tab @ tab @ prefix @ '': Scoring trained pipeline'') st;
                  st = record_call (Score_call fitted_pipeline X_score y_score
                         objectives_to_score X_train y_train) st
              in case pipeline_score env fitted_pipeline X_score y_score objectives_to_score
                        X_train y_train of
                   Inl e \<Rightarrow> (Inl (e, fitted_pipeline), st)
                 | Inr scores \<Rightarrow>
                     (case map_of scores (name (objective automl_config)) of
                        None \<Rightarrow>
                          (Inl (KeyError (name (objective automl_config)), fitted_pipeline), st)
                      | Some sc \<Rightarrow>
                          (let st = log_debug (tab @ tab @ tab @ prefix @ '': ''
                                      @ name (objective automl_config) @ '' score: ''
                                      @ format_3f env sc) st;
                               st = st\<lparr>pipeline_cache :=
                                      AList.update hashes (component_instances fitted_pipeline)
                                        (pipeline_cache st)\<rparr>
                           in (Inr (sc, scores, fitted_pipeline), st)))))"

text \<open>
  The dictionary comprehension \<open>{o.name: scores[o.name] for o in ...}\<close> of the handler:
  \<open>scores[o.name]\<close> raises \<open>KeyError\<close> at the first name that is not a key.
\<close>

fun scores_by_name ::
  "(string \<times> pyfloat) list \<Rightarrow> objective list \<Rightarrow> (string \<times> pyfloat) list
     \<Rightarrow> exn + (string \<times> pyfloat) list" where
  "scores_by_name scores [] acc = Inr acc"
| "scores_by_name scores (ob # obs) acc =
     (case map_of scores (name ob) of
        None \<Rightarrow> Inl (KeyError (name ob))
      | Some v \<Rightarrow> scores_by_name scores obs (AList.update (name ob) v acc))"

text \<open>
  What the handler computes once the callback has returned: for a
  \<open>PipelineScoreError\<close>, NaN for the keys of \<open>exceptions\<close>, overwritten by
  \<open>scored_successfully\<close>, then read back per objective; for any other exception, NaN as
  the score and a dictionary of NaN keyed by the additional objectives.
\<close>

fun scores_after_failure ::
  "('x, 'cb) automl_config \<Rightarrow> exn \<Rightarrow> exn + (pyfloat \<times> (string \<times> pyfloat) list)" where
  "scores_after_failure automl_config (PipelineScoreError exceptions scored_successfully) =
     (let nan_scores = dict_of (map (\<lambda>(ob, _). (ob, NaN)) exceptions);
          scores = dict_update nan_scores scored_successfully
      in case scores_by_name scores
                (objective automl_config # additional_objectives automl_config) [] of
           Inl e \<Rightarrow> Inl e
         | Inr scores \<Rightarrow>
             (case map_of scores (name (objective automl_config)) of
                None \<Rightarrow> Inl (KeyError (name (objective automl_config)))
              | Some sc \<Rightarrow> Inr (sc, scores)))"
| "scores_after_failure automl_config e =
     Inr (NaN,
          dict_of (zip (map name (additional_objectives automl_config))
                       (replicate (length (additional_objectives automl_config)) NaN)))"

text \<open>
  \<open>_train_and_score\<close>. It reads the variable \<open>i\<close> of the enclosing function, not its
  own parameter \<open>fold_num\<close>: \<open>i\<close> is \<open>None\<close> here while the enclosing loop has not
  bound it, and reading it then raises \<open>NameError\<close>; once bound it holds an integer, so
  the prefix is always \<open>Fold i\<close>. The handler catches what derives from \<open>Exception\<close>;
  an exception the callback raises, or the handler's own \<open>KeyError\<close>, leaves the
  function.
\<close>

definition train_and_score ::
  "('x, 'c, 'cb) collaborators \<Rightarrow> 'c pipeline \<Rightarrow> ('x, 'cb) automl_config \<Rightarrow> nat option
     \<Rightarrow> 'x frame \<Rightarrow> 'x frame \<Rightarrow> series \<Rightarrow> series \<Rightarrow> nat option \<Rightarrow> ('x, 'c, 'cb) state
     \<Rightarrow> (exn + (pyfloat \<times> (string \<times> pyfloat) list \<times> 'c pipeline)) \<times> ('x, 'c, 'cb) state" where
  "train_and_score env pipeline automl_config i X_train X_score y_train y_score fold_num st =
     (case i of
        None \<Rightarrow> (Inl (NameError ''i''), st)
      | Some n \<Rightarrow>
          (case try_train_and_score env pipeline automl_config (''Fold '' @ str n)
                  X_train X_score y_train y_score st of
             (Inr r, st) \<Rightarrow> (Inr r, st)
           | (Inl (e, fitted_pipeline), st) \<Rightarrow>
               if \<not> is_Exception e then (Inl e, st)
               else
                 (case (case error_callback automl_config of
                          None \<Rightarrow> (None, st)
                        | Some cb \<Rightarrow>
                            (call_error_callback env cb e (format_tb env e) automl_config n
                               pipeline,
                             record_call (Error_callback_call cb e (format_tb env e)
                               automl_config n pipeline) st)) of
                    (Some raised, st) \<Rightarrow> (Inl raised, st)
                  | (None, st) \<Rightarrow>
                      (case scores_after_failure automl_config e of
                         Inl raised \<Rightarrow> (Inl raised, st)
                       | Inr (sc, scores) \<Rightarrow> (Inr (sc, scores, fitted_pipeline), st)))))"

subsection \<open>One iteration of the cross-validation loop\<close>

text \<open>The check for target values missing from a slice; \<open>None\<close> when nothing is raised.\<close>

definition missing_target_values ::
  "('x, 'c, 'cb) collaborators \<Rightarrow> ('x, 'cb) automl_config \<Rightarrow> series \<Rightarrow> series \<Rightarrow> series
     \<Rightarrow> exn option" where
  "missing_target_values env automl_config full_y_train y_train y_valid =
     (if handle_problem_types env (problem_type automl_config) \<in> set [BINARY, MULTICLASS]
      then
        (let diff_train = setdiff1d full_y_train y_train;
             diff_valid = setdiff1d full_y_train y_valid;
             diff_string =
               (if diff_train \<noteq> []
                then ''Missing target values in the training set after data split: ''
                       @ repr_set env diff_train @ ''. ''
                else [])
               @ (if diff_valid \<noteq> []
                  then ''Missing target values in the validation set after data split: ''
                         @ repr_set env diff_valid @ ''.''
                  else [])
         in if diff_string \<noteq> [] then Some (Exception diff_string) else None)
      else None)"

text \<open>The evaluation entry of a fold, from what \<open>_train_and_score\<close> returned.\<close>

definition make_evaluation_entry ::
  "('x, 'c, 'cb) collaborators \<Rightarrow> ('x, 'cb) automl_config \<Rightarrow> pyfloat \<Rightarrow> (string \<times> pyfloat) list
     \<Rightarrow> 'c pipeline \<Rightarrow> nat \<Rightarrow> nat \<Rightarrow> evaluation_entry" where
  "make_evaluation_entry env automl_config sc scores stored_pipeline n_train n_valid =
     (let ordered_scores = [];
          ordered_scores = dict_update ordered_scores [(name (objective automl_config), Score sc)];
          ordered_scores = dict_update ordered_scores (map (\<lambda>(k, v). (k, Score v)) scores);
          ordered_scores = dict_update ordered_scores [(''# Training'', Size n_train)];
          ordered_scores = dict_update ordered_scores [(''# Validation'', Size n_valid)]
      in \<lparr>all_objective_scores = ordered_scores,
          mean_cv_score = sc,
          binary_classification_threshold =
            (if is_binary env (problem_type automl_config)
             then threshold stored_pipeline else None)\<rparr>)"

definition cv_fold ::
  "('x, 'c, 'cb) collaborators \<Rightarrow> 'c pipeline \<Rightarrow> ('x, 'cb) automl_config \<Rightarrow> 'x frame \<Rightarrow> series
     \<Rightarrow> nat \<Rightarrow> nat list \<Rightarrow> nat list \<Rightarrow> ('x, 'c, 'cb) state
     \<Rightarrow> (exn + (evaluation_entry \<times> 'c pipeline)) \<times> ('x, 'c, 'cb) state" where
  "cv_fold env pipeline automl_config full_X_train full_y_train i train valid st =
     (let st = log_debug (tab @ tab @ ''Training and scoring on fold '' @ str i) st
      in case iloc full_X_train train of Inl e \<Rightarrow> (Inl e, st) | Inr X_train \<Rightarrow>
        (case iloc full_X_train valid of Inl e \<Rightarrow> (Inl e, st) | Inr X_valid \<Rightarrow>
        (case iloc full_y_train train of Inl e \<Rightarrow> (Inl e, st) | Inr y_train \<Rightarrow>
        (case iloc full_y_train valid of Inl e \<Rightarrow> (Inl e, st) | Inr y_valid \<Rightarrow>
        (case missing_target_values env automl_config full_y_train y_train y_valid of
           Some e \<Rightarrow> (Inl e, st)
         | None \<Rightarrow>
            (case train_and_score env pipeline automl_config (Some i)
                    X_train X_valid y_train y_valid (Some i) st of
               (Inl e, st) \<Rightarrow> (Inl e, st)
             | (Inr (sc, scores, stored_pipeline), st) \<Rightarrow>
                 (Inr (make_evaluation_entry env automl_config sc scores stored_pipeline
                         (length y_train) (length y_valid),
                       stored_pipeline), st)))))))"

subsection \<open>The loop and the function\<close>

text \<open>
  The \<open>for\<close> loop over \<open>enumerate(splits)\<close>, from fold number \<open>i\<close> on, with
  \<open>cv_data\<close> and \<open>stored_pipeline\<close> as they stand; an exception that leaves an
  iteration leaves the loop.
\<close>

fun cross_validation ::
  "('x, 'c, 'cb) collaborators \<Rightarrow> 'c pipeline \<Rightarrow> ('x, 'cb) automl_config \<Rightarrow> 'x frame \<Rightarrow> series
     \<Rightarrow> nat \<Rightarrow> (nat list \<times> nat list) list \<Rightarrow> evaluation_entry list \<Rightarrow> 'c pipeline
     \<Rightarrow> ('x, 'c, 'cb) state
     \<Rightarrow> (exn + (evaluation_entry list \<times> 'c pipeline)) \<times> ('x, 'c, 'cb) state" where
  "cross_validation env pipeline automl_config full_X_train full_y_train i [] cv_data'
     stored_pipeline st = (Inr (cv_data', stored_pipeline), st)"
| "cross_validation env pipeline automl_config full_X_train full_y_train i
     ((train, valid) # rest) cv_data' stored_pipeline st =
     (case cv_fold env pipeline automl_config full_X_train full_y_train i train valid st of
        (Inl e, st) \<Rightarrow> (Inl e, st)
      | (Inr (evaluation_entry, stored_pipeline), st) \<Rightarrow>
          cross_validation env pipeline automl_config full_X_train full_y_train (Suc i) rest
            (cv_data' @ [evaluation_entry]) stored_pipeline st)"

text \<open>
  \<open>_encode_classification_target\<close>. Every value of \<open>y\<close> is in \<open>y.value_counts().index\<close>
  and so a key of \<open>y_mapping\<close>.
\<close>

definition encode_classification_target ::
  "('x, 'c, 'cb) collaborators \<Rightarrow> series \<Rightarrow> series" where
  "encode_classification_target env y =
     (let index = value_counts_index env y;
          y_mapping = dict_of (zip index (map int [0..<length index]))
      in map (\<lambda>v. case map_of y_mapping v of Some code \<Rightarrow> code | None \<Rightarrow> v) y)"

text \<open>
  The variable \<open>i\<close> after the loop: unbound when the loop body never ran, else the number
  of the last fold.
\<close>

definition loop_variable_after :: "'a list \<Rightarrow> nat option" where
  "loop_variable_after splits = (if splits = [] then None else Some (length splits - 1))"

definition train_and_score_pipeline ::
  "('x, 'c, 'cb) collaborators \<Rightarrow> 'c pipeline \<Rightarrow> ('x, 'cb) automl_config \<Rightarrow> 'x frame \<Rightarrow> series
     \<Rightarrow> JobLogger \<Rightarrow> 'x frame option \<Rightarrow> series option
     \<Rightarrow> (exn + 'c evaluation_result) \<times> ('x, 'c, 'cb) state" where
  "train_and_score_pipeline env pipeline automl_config full_X_train full_y_train job_logger
     X_holdout y_holdout =
     (let use_holdout = (X_holdout \<noteq> None \<and> y_holdout \<noteq> None);
          st = \<lparr>logger = info (tab @ ''Starting cross validation'') job_logger,
                pipeline_cache = [], calls = []\<rparr>;
          classification = is_classification env (problem_type automl_config);
          full_y_train = (if classification
                          then encode_classification_target env full_y_train
                          else full_y_train);
          y_holdout = (if classification \<and> use_holdout
                       then map_option (encode_classification_target env) y_holdout
                       else y_holdout);
          splits = data_splitter automl_config full_X_train full_y_train
      in case cross_validation env pipeline automl_config full_X_train full_y_train 0 splits
                [] pipeline st of
           (Inl e, st) \<Rightarrow> (Inl e, st)
         | (Inr (cv_data', stored_pipeline), st) \<Rightarrow>
             (let cv_scores' = map mean_cv_score cv_data';
                  cv_score_mean' = series_mean cv_scores';
                  st = log_info (tab @ ''Finished cross validation - mean ''
                         @ name (objective automl_config) @ '': ''
                         @ format_3f env cv_score_mean') st
              in case (X_holdout, y_holdout) of
                   (Some X_h, Some y_h) \<Rightarrow>
                     (let st = log_info (tab @ ''Starting holdout set scoring'') st;
                          st = log_debug (tab @ tab @ ''Training and scoring entire dataset'') st
                      in case train_and_score env pipeline automl_config
                                (loop_variable_after splits)
                                full_X_train X_h full_y_train y_h None st of
                           (Inl e, st) \<Rightarrow> (Inl e, st)
                         | (Inr (h_score, h_scores, stored_pipeline), st) \<Rightarrow>
                             (let st = log_info (tab @ ''Finished holdout set scoring - ''
                                         @ name (objective automl_config) @ '': ''
                                         @ format_3f env h_score) st
                              in (Inr \<lparr>result_scores =
                                         \<lparr>cv_data = cv_data', cv_scores = cv_scores',
                                          cv_score_mean = cv_score_mean',
                                          holdout_score = Some h_score,
                                          holdout_scores = Some h_scores\<rparr>,
                                       result_cached_data = pipeline_cache st,
                                       result_pipeline = stored_pipeline,
                                       result_logger = logger st\<rparr>, st)))
                 | _ \<Rightarrow>
                     (Inr \<lparr>result_scores =
                            \<lparr>cv_data = cv_data', cv_scores = cv_scores',
                             cv_score_mean = cv_score_mean',
                             holdout_score = None, holdout_scores = None\<rparr>,
                          result_cached_data = pipeline_cache st,
                          result_pipeline = stored_pipeline,
                          result_logger = logger st\<rparr>, st)))"

section \<open>Vocabulary of the statements about the evaluation\<close>

text \<open>
  The call of \<open>train_pipeline\<close> a fold is expected to make: on the rows of the full
  training data at the fold's training positions.
\<close>

definition fold_train_call ::
  "'c pipeline \<Rightarrow> 'x frame \<Rightarrow> series \<Rightarrow> nat list \<times> nat list \<Rightarrow> ('x, 'c, 'cb) call" where
  "fold_train_call p X y f =
     Train_pipeline_call p (map (\<lambda>j. X ! j) (fst f)) (map (\<lambda>j. y ! j) (fst f))"

text \<open>
  A \<open>PipelineScoreError\<close> accounts for every configured objective when each is a key
  of \<open>exceptions\<close> or of \<open>scored_successfully\<close>; the handler raises \<open>KeyError\<close>
  on one that does not. Any other exception has nothing to account for.
\<close>

fun covers_objectives :: "('x, 'cb) automl_config \<Rightarrow> exn \<Rightarrow> bool" where
  "covers_objectives cfg (PipelineScoreError exceptions scored_successfully) =
     (\<forall>ob \<in> set (objective cfg # additional_objectives cfg).
        name ob \<in> fst ` set exceptions \<union> fst ` set scored_successfully)"
| "covers_objectives cfg e = True"

section \<open>A concrete setting\<close>

text \<open>
  Collaborators to run the engine on: a row of the feature table is a number that says how
  the pipeline takes it (\<open>1\<close>: \<open>fit\<close> raises on a table holding it; \<open>2\<close>: \<open>score\<close>
  raises a \<open>PipelineScoreError\<close> on a table holding it, objective \<open>A\<close> failing and
  \<open>B\<close> scoring 0.8; any other row is fine). A fitted pipeline has component instances
  \<open>1\<close>; tuning a binary pipeline sets its threshold to 0.25; every objective scores 1.
  The error callback returns normally.
\<close>

fun join :: "string \<Rightarrow> string list \<Rightarrow> string" where
  "join sep [] = []"
| "join sep [x] = x"
| "join sep (x # y # ys) = x @ sep @ join sep (y # ys)"

text \<open>
  A value-counts index to run the examples with: the distinct values sorted by ascending
  count, reversed; so of two equally frequent values the one that occurs first comes
  last. The classification targets of the examples below have no two values of equal
  count, and for such a target every index that satisfies \<open>value_counts_order\<close> is
  this one (\<open>value_counts_order_unique\<close> below).
\<close>

definition first_occurrences :: "'a list \<Rightarrow> 'a list" where
  "first_occurrences xs = rev (remdups (rev xs))"

definition example_value_counts_index :: "series \<Rightarrow> int list" where
  "example_value_counts_index y =
     rev (sort_key (\<lambda>v. int (count_list y v)) (first_occurrences y))"

definition example_env :: "(nat, nat, unit) collaborators" where
  "example_env =
     \<lparr>is_classification = (\<lambda>pt. pt = BINARY \<or> pt = MULTICLASS),
      is_binary = (\<lambda>pt. pt = BINARY),
      handle_problem_types = (\<lambda>pt. pt),
      get_threshold_tuning_info = (\<lambda>cfg p. Inr (None, False)),
      resplit_training_data = (\<lambda>p X y. Inr (X, [], y, [])),
      pipeline_clone = Inr,
      pipeline_fit = (\<lambda>p X y. if 1 \<in> set (map snd X) then Inl (Exception ''fit failed'')
                               else Inr (p\<lparr>component_instances := 1\<rparr>)),
      tune_binary_threshold = (\<lambda>p ob pt X_tt y_tt X y.
                                 Inr (if pt = BINARY then p\<lparr>threshold := Some (1 / 4)\<rparr> else p)),
      pipeline_score = (\<lambda>p X y obs X_train y_train.
                          if 2 \<in> set (map snd X)
                          then Inl (PipelineScoreError [(''A'', ''could not score'')]
                                      [(''B'', Float (4 / 5))])
                          else Inr (map (\<lambda>ob. (name ob, Float 1)) obs)),
      call_error_callback = (\<lambda>cb e tb cfg n p. None),
      ww_init_X = (\<lambda>s X. Inr X),
      ww_init_y = (\<lambda>s y. Inr y),
      value_counts_index = example_value_counts_index,
      format_tb = (\<lambda>e. [''Traceback'']),
      hash_tuple = sum_list,
      format_3f = (\<lambda>v. case v of NaN \<Rightarrow> ''nan'' | Float r \<Rightarrow> ''float''),
      repr_set = (\<lambda>vs. ''{'' @ join '', '' (map (\<lambda>v. str (nat v)) vs) @ ''}'')\<rparr>"

text \<open>
  A configuration with primary objective \<open>B\<close> and additional objective \<open>A\<close>, for a
  problem that is not a classification, with two folds over three rows.
\<close>

definition example_config :: "(nat, unit) automl_config" where
  "example_config =
     \<lparr>objective = Objective ''B'',
      additional_objectives = [Objective ''A''],
      data_splitter = (\<lambda>X y. [([0, 1], [2]), ([1, 2], [0])]),
      problem_type = OTHER ''regression'',
      optimize_thresholds = False,
      X_schema = None,
      y_schema = None,
      error_callback = Some ()\<rparr>"

definition example_pipeline :: "nat pipeline" where
  "example_pipeline =
     \<lparr>pipeline_problem_type = OTHER ''regression'', threshold = None, component_instances = 0\<rparr>"

text \<open>Three rows; the first cannot be fitted.\<close>

definition example_X :: "nat frame" where
  "example_X = [(0, 1), (1, 0), (2, 0)]"

definition example_y :: series where
  "example_y = [30, 40, 50]"

text \<open>Three rows; the last cannot be scored on objective \<open>A\<close>. One fold.\<close>

definition partial_X :: "nat frame" where
  "partial_X = [(0, 0), (1, 0), (2, 2)]"

definition partial_config :: "(nat, unit) automl_config" where
  "partial_config = example_config\<lparr>data_splitter := (\<lambda>X y. [([0, 1], [2])])\<rparr>"

text \<open>
  A multiclass problem on six rows with classes 0, 1 and 2, and a split whose training
  slice has no row of class 2.
\<close>

definition multiclass_X :: "nat frame" where
  "multiclass_X = [(0, 0), (1, 0), (2, 0), (3, 0), (4, 0), (5, 0)]"

definition multiclass_y :: series where
  "multiclass_y = [0, 0, 0, 1, 1, 2]"

definition multiclass_config :: "(nat, unit) automl_config" where
  "multiclass_config =
     example_config\<lparr>problem_type := MULTICLASS,
                    data_splitter := (\<lambda>X y. [([0, 1, 3, 4], [2, 4, 5])])\<rparr>"

text \<open>
  A binary problem on four rows with the labels 5 (three times) and 7 (once); both folds'
  slices hold both labels. The first row cannot be fitted in \<open>binary_X_unfit\<close>.
\<close>

definition binary_X :: "nat frame" where
  "binary_X = [(0, 0), (1, 0), (2, 0), (3, 0)]"

definition binary_X_unfit :: "nat frame" where
  "binary_X_unfit = [(0, 1), (1, 0), (2, 0), (3, 0)]"

definition binary_y :: series where
  "binary_y = [5, 5, 5, 7]"

definition binary_config :: "(nat, unit) automl_config" where
  "binary_config =
     example_config\<lparr>problem_type := BINARY,
                    data_splitter := (\<lambda>X y. [([0, 1, 3], [2, 3])])\<rparr>"

text \<open>A binary pipeline that comes with a threshold of 0.5 already set.\<close>

definition binary_pipeline :: "nat pipeline" where
  "binary_pipeline =
     \<lparr>pipeline_problem_type = BINARY, threshold = Some (1 / 2), component_instances = 0\<rparr>"

text \<open>A holdout set of two rows.\<close>

definition holdout_X :: "nat frame" where
  "holdout_X = [(7, 0), (8, 0)]"

definition holdout_y :: series where
  "holdout_y = [60, 70]"

text \<open>
  The evaluation of the first setting, without a holdout set: the first fold cannot be
  fitted, the second scores 1.
\<close>

definition example_outcome :: "exn + nat evaluation_result" where
  "example_outcome =
     fst (train_and_score_pipeline example_env example_pipeline example_config example_X
            example_y JobLogger_init None None)"

text \<open>
  The evaluation of the binary problem with the pipeline whose threshold is already set,
  on the data whose first row cannot be fitted: the one fold's training raises.
\<close>

definition binary_unfit_outcome :: "exn + nat evaluation_result" where
  "binary_unfit_outcome =
     fst (train_and_score_pipeline example_env binary_pipeline binary_config binary_X_unfit
            binary_y JobLogger_init None None)"

text \<open>
  A holdout set for the binary problem, in which label 7 is the more frequent one; and a
  split of the binary problem whose training slice has no row with label 7.
\<close>

definition binary_holdout_X :: "nat frame" where
  "binary_holdout_X = [(7, 0), (8, 0), (9, 0)]"

definition binary_holdout_y :: series where
  "binary_holdout_y = [7, 7, 5]"

definition binary_config_missing :: "(nat, unit) automl_config" where
  "binary_config_missing = binary_config\<lparr>data_splitter := (\<lambda>X y. [([0, 1], [2, 3])])\<rparr>"

text \<open>
  The first setting with a data splitter that yields no fold.
\<close>

definition no_fold_config :: "(nat, unit) automl_config" where
  "no_fold_config = example_config\<lparr>data_splitter := (\<lambda>X y. [])\<rparr>"

text \<open>
  A multiclass problem on the six rows in which class 2 is the most frequent and class 0
  the least, and a split whose training slice (rows 0, 1, 2) has no row of class 2 while
  its validation slice (rows 0, 1, 3) has every class.
\<close>

definition skewed_y :: series where
  "skewed_y = [0, 1, 1, 2, 2, 2]"

definition skewed_config :: "(nat, unit) automl_config" where
  "skewed_config =
     example_config\<lparr>problem_type := MULTICLASS,
                    data_splitter := (\<lambda>X y. [([0, 1, 2], [0, 1, 3])])\<rparr>"

section \<open>Properties of the JobLogger\<close>

lemma logs_apply_call: "logs (apply_call c jl) = logs jl @ [spec_entry c]"
  by (cases c) (simp_all add: info_def debug_def warning_def error_def)

lemma logs_fold_apply_call:
  "logs (fold apply_call cs jl) = logs jl @ map spec_entry cs"
  by (induction cs arbitrary: jl) (simp_all add: logs_apply_call)

lemma replay_spec_entries:
  "replay target (map spec_entry cs) s = (None, fold (spec_replayed target) cs s)"
proof (induction cs arbitrary: s)
  case Nil
  show ?case by simp
next
  case (Cons c cs)
  show ?case
    by (cases c) (simp_all add: logger_method_def Cons.IH)
qed

lemma replay_append:
  "replay target (xs @ ys) s =
     (case replay target xs s of
        (None, s') \<Rightarrow> replay target ys s'
      | (Some e, s') \<Rightarrow> (Some e, s'))"
  by (induction xs arbitrary: s) (auto split: option.splits)

lemma logger_method_error_irrelevant:
  "logger_method (target\<lparr>logger_error := f\<rparr>) = logger_method target"
  by (simp add: logger_method_def)

lemma replay_error_irrelevant:
  "replay (target\<lparr>logger_error := f\<rparr>) entries s = replay target entries s"
  by (induction entries arbitrary: s)
     (auto simp: logger_method_error_irrelevant split: option.splits)

lemma replay_recording:
  "\<forall>(level, m) \<in> set entries. level \<in> {''info'', ''debug'', ''warning'', ''error''} \<Longrightarrow>
   replay recording_logger entries s = (None, s @ downgraded entries)"
proof (induction entries arbitrary: s)
  case Nil
  show ?case by (simp add: downgraded_def)
next
  case (Cons p entries)
  obtain level m where p: "p = (level, m)" by (cases p)
  from Cons.prems p have lv: "level \<in> {''info'', ''debug'', ''warning'', ''error''}"
    and rest: "\<forall>(level, m) \<in> set entries. level \<in> {''info'', ''debug'', ''warning'', ''error''}"
    by auto
  have step: "replay recording_logger (p # entries) s =
      replay recording_logger entries
        (s @ [(if level = ''error'' then ''warning'' else level, m)])"
    using lv by (auto simp: p logger_method_def recording_logger_def)
  show ?case
    unfolding step Cons.IH [OF rest]
    by (simp add: downgraded_def p)
qed

lemma spec_entry_level:
  "\<forall>(level, m) \<in> set (map spec_entry cs). level \<in> {''info'', ''debug'', ''warning'', ''error''}"
proof (induction cs)
  case Nil
  show ?case by simp
next
  case (Cons c cs)
  then show ?case by (cases c) simp_all
qed

text \<open>
  C7. Calls of \<open>info\<close>, \<open>debug\<close>, \<open>warning\<close> and \<open>error\<close> append their (level,
  message) pairs to the buffer in call order and change nothing else (the buffer is the
  whole state of a JobLogger). \<open>write_to_logger\<close> then replays every buffered entry on
  the target, first in first out, through the target's method of the same name, except
  that a buffered error is replayed through the target's \<open>warning\<close>: the outcome does
  not depend on the target's \<open>error\<close> method at all, and a target that records its calls
  ends with every entry in order, the errors recorded as warnings.
\<close>

theorem job_logger_replay_fifo:
  "logs (fold apply_call cs jl) = logs jl @ map spec_entry cs
   \<and> fold apply_call cs jl = jl\<lparr>logs := logs jl @ map spec_entry cs\<rparr>
   \<and> write_to_logger (fold apply_call cs JobLogger_init) target s =
       (None, fold apply_call cs JobLogger_init, fold (spec_replayed target) cs s)
   \<and> write_to_logger (fold apply_call cs JobLogger_init) (target\<lparr>logger_error := f\<rparr>) s =
       write_to_logger (fold apply_call cs JobLogger_init) target s
   \<and> write_to_logger (fold apply_call cs JobLogger_init) recording_logger t =
       (None, fold apply_call cs JobLogger_init, t @ downgraded (map spec_entry cs))"
proof -
  have l: "logs (fold apply_call cs jl) = logs jl @ map spec_entry cs" for jl
    by (rule logs_fold_apply_call)
  have l0: "logs (fold apply_call cs JobLogger_init) = map spec_entry cs"
    by (simp add: l JobLogger_init_def)
  have a: "fold apply_call cs jl = jl\<lparr>logs := logs jl @ map spec_entry cs\<rparr>"
    by (rule JobLogger.equality) (simp_all add: l)
  have b: "write_to_logger (fold apply_call cs JobLogger_init) target s =
       (None, fold apply_call cs JobLogger_init, fold (spec_replayed target) cs s)"
    by (simp add: write_to_logger_def l0 replay_spec_entries)
  have c: "write_to_logger (fold apply_call cs JobLogger_init) (target\<lparr>logger_error := f\<rparr>) s =
       write_to_logger (fold apply_call cs JobLogger_init) target s"
    by (simp add: write_to_logger_def replay_error_irrelevant)
  have d: "write_to_logger (fold apply_call cs JobLogger_init) recording_logger t =
       (None, fold apply_call cs JobLogger_init, t @ downgraded (map spec_entry cs))"
    by (simp add: write_to_logger_def l0 replay_recording [OF spec_entry_level])
  from l a b c d show ?thesis by blast
qed

theorem job_logger_replay_fifo_witness:
  "logs (fold apply_call [Info ''x'', Error ''y''] JobLogger_init) =
     [(''info'', ''x''), (''error'', ''y'')]
   \<and> write_to_logger (fold apply_call [Info ''x'', Error ''y''] JobLogger_init)
       recording_logger [] =
       (None, \<lparr>logs = [(''info'', ''x''), (''error'', ''y'')]\<rparr>,
        [(''info'', ''x''), (''warning'', ''y'')])"
  using job_logger_replay_fifo
    [of "[Info ''x'', Error ''y'']" JobLogger_init recording_logger "[]" undefined "[]"]
  by (simp add: JobLogger_init_def info_def error_def downgraded_def recording_logger_def)

text \<open>
  C10. \<open>write_to_logger\<close> leaves the buffer as it was, whatever the buffer holds and
  whatever the target is; so for a buffer filled through the four logging methods, a
  second call delivers every buffered message to the target a second time.
\<close>

theorem write_to_logger_keeps_buffer:
  "fst (snd (write_to_logger jl target s)) = jl
   \<and> (let jl0 = fold apply_call cs JobLogger_init;
          (r1, jl1, s1) = write_to_logger jl0 target s;
          (r2, jl2, s2) = write_to_logger jl1 target s1
      in r1 = None \<and> r2 = None \<and> jl1 = jl0 \<and> jl2 = jl0
         \<and> s2 = fold (spec_replayed target) (cs @ cs) s)
   \<and> (let jl0 = fold apply_call cs JobLogger_init;
          (r1, jl1, t1) = write_to_logger jl0 recording_logger t;
          (r2, jl2, t2) = write_to_logger jl1 recording_logger t1
      in t2 = t @ downgraded (map spec_entry cs) @ downgraded (map spec_entry cs))"
proof -
  have l0: "logs (fold apply_call cs JobLogger_init) = map spec_entry cs"
    by (simp add: logs_fold_apply_call JobLogger_init_def)
  have a: "fst (snd (write_to_logger jl target s)) = jl"
    by (simp add: write_to_logger_def split: prod.splits)
  have w: "write_to_logger (fold apply_call cs JobLogger_init) L u =
       (None, fold apply_call cs JobLogger_init, fold (spec_replayed L) cs u)" for L :: "'t target_logger" and u
    by (simp add: write_to_logger_def l0 replay_spec_entries)
  have r: "write_to_logger (fold apply_call cs JobLogger_init) recording_logger u =
       (None, fold apply_call cs JobLogger_init, u @ downgraded (map spec_entry cs))" for u
    by (simp add: write_to_logger_def l0 replay_recording [OF spec_entry_level])
  have b: "(let jl0 = fold apply_call cs JobLogger_init;
          (r1, jl1, s1) = write_to_logger jl0 target s;
          (r2, jl2, s2) = write_to_logger jl1 target s1
      in r1 = None \<and> r2 = None \<and> jl1 = jl0 \<and> jl2 = jl0
         \<and> s2 = fold (spec_replayed target) (cs @ cs) s)"
    by (simp add: Let_def w)
  have c: "(let jl0 = fold apply_call cs JobLogger_init;
          (r1, jl1, t1) = write_to_logger jl0 recording_logger t;
          (r2, jl2, t2) = write_to_logger jl1 recording_logger t1
      in t2 = t @ downgraded (map spec_entry cs) @ downgraded (map spec_entry cs))"
    by (simp add: Let_def r)
  from a b c show ?thesis by blast
qed

theorem write_to_logger_keeps_buffer_witness:
  "fst (snd (write_to_logger \<lparr>logs = [(''info'', ''x''), (''error'', ''y'')]\<rparr>
       recording_logger [])) = \<lparr>logs = [(''info'', ''x''), (''error'', ''y'')]\<rparr>
   \<and> snd (snd (write_to_logger
       (fst (snd (write_to_logger (fold apply_call [Info ''x'', Error ''y''] JobLogger_init)
          recording_logger [])))
       recording_logger
       (snd (snd (write_to_logger (fold apply_call [Info ''x'', Error ''y''] JobLogger_init)
          recording_logger []))))) =
     [(''info'', ''x''), (''warning'', ''y''), (''info'', ''x''), (''warning'', ''y'')]"
  using write_to_logger_keeps_buffer
    [of "\<lparr>logs = [(''info'', ''x''), (''error'', ''y'')]\<rparr>" recording_logger "[]"
        "[Info ''x'', Error ''y'']" "[]"]
  by (simp add: Let_def JobLogger_init_def info_def error_def downgraded_def
      recording_logger_def split: prod.splits)

section \<open>Dictionaries\<close>

lemma map_of_dict_update:
  "map_of (dict_update d other) = map_of d ++ map_of (rev other)"
  unfolding dict_update_def
proof (induction other arbitrary: d)
  case Nil
  show ?case by simp
next
  case (Cons p other)
  obtain k v where p: "p = (k, v)" by (cases p)
  have "map_of (AList.update k v d) ++ map_of (rev other) =
        map_of d ++ map_of (rev other @ [(k, v)])"
    by (rule ext) (simp add: update_conv' map_add_def split: option.splits)
  then show ?case
    by (simp add: p Cons.IH del: map_of_append)
qed

lemma keys_dict_update_new:
  "distinct (map fst other) \<Longrightarrow> set (map fst other) \<inter> set (map fst d) = {} \<Longrightarrow>
   map fst (dict_update d other) = map fst d @ map fst other"
  unfolding dict_update_def
proof (induction other arbitrary: d)
  case Nil
  show ?case by simp
next
  case (Cons p other)
  obtain k v where p: "p = (k, v)" by (cases p)
  from Cons.prems have k: "k \<notin> set (map fst d)" and d: "distinct (map fst other)"
    and k2: "k \<notin> set (map fst other)" and i: "set (map fst other) \<inter> set (map fst d) = {}"
    by (auto simp: p)
  have keys: "map fst (AList.update k v d) = map fst d @ [k]"
    using k by (simp add: update_keys)
  have "set (map fst other) \<inter> set (map fst (AList.update k v d)) = {}"
    using i k2 unfolding keys by auto
  from Cons.IH [OF d this] show ?case by (simp add: p keys)
qed

lemma keys_dict_update_old:
  "set (map fst other) \<subseteq> set (map fst d) \<Longrightarrow> map fst (dict_update d other) = map fst d"
  unfolding dict_update_def
proof (induction other arbitrary: d)
  case Nil
  show ?case by simp
next
  case (Cons p other)
  obtain k v where p: "p = (k, v)" by (cases p)
  from Cons.prems have k: "k \<in> set (map fst d)" and r: "set (map fst other) \<subseteq> set (map fst d)"
    by (auto simp: p)
  have keys: "map fst (AList.update k v d) = map fst d"
    using k by (simp add: update_keys)
  from Cons.IH [of "AList.update k v d"] r show ?case by (simp add: p keys)
qed

lemma set_update_subset: "set (AList.update k v al) \<subseteq> insert (k, v) (set al)"
  by (induction al) auto

lemma set_dict_update: "set (dict_update d other) \<subseteq> set d \<union> set other"
  unfolding dict_update_def
proof (induction other arbitrary: d)
  case Nil
  show ?case by simp
next
  case (Cons p other)
  obtain k v where p: "p = (k, v)" by (cases p)
  have "set (fold (\<lambda>(k, v). AList.update k v) other (AList.update k v d))
        \<subseteq> set (AList.update k v d) \<union> set other"
    by (rule Cons.IH)
  also have "\<dots> \<subseteq> insert (k, v) (set d) \<union> set other"
    using set_update_subset [of k v d] by blast
  finally show ?case by (auto simp: p)
qed

lemma dom_dict_update: "fst ` set (dict_update d other) = fst ` set d \<union> fst ` set other"
  unfolding dict_update_def
proof (induction other arbitrary: d)
  case Nil
  show ?case by simp
next
  case (Cons p other)
  obtain k v where p: "p = (k, v)" by (cases p)
  show ?case by (auto simp: p Cons.IH dom_update)
qed

lemma distinct_dict_update:
  "distinct (map fst d) \<Longrightarrow> distinct (map fst (dict_update d other))"
  unfolding dict_update_def
proof (induction other arbitrary: d)
  case Nil
  then show ?case by simp
next
  case (Cons p other)
  obtain k v where p: "p = (k, v)" by (cases p)
  from Cons.prems have "distinct (map fst (AList.update k v d))" by (rule distinct_update)
  from Cons.IH [OF this] show ?case by (simp add: p)
qed

lemma map_of_rev_distinct: "distinct (map fst xs) \<Longrightarrow> map_of (rev xs) = map_of xs"
proof (rule ext)
  fix k
  assume d: "distinct (map fst xs)"
  then have dr: "distinct (map fst (rev xs))" by (simp add: rev_map [symmetric])
  show "map_of (rev xs) k = map_of xs k"
  proof (cases "map_of xs k")
    case None
    then have "k \<notin> fst ` set xs" by (simp add: map_of_eq_None_iff)
    then have "map_of (rev xs) k = None" by (simp add: map_of_eq_None_iff)
    with None show ?thesis by simp
  next
    case (Some v)
    then have "(k, v) \<in> set xs" by (rule map_of_SomeD)
    then have "(k, v) \<in> set (rev xs)" by simp
    with dr have "map_of (rev xs) k = Some v" by (rule map_of_is_SomeI)
    with Some show ?thesis by simp
  qed
qed

lemma entry_lookup:
  assumes "k \<noteq> ''# Training''" "k \<noteq> ''# Validation''"
  shows "map_of (all_objective_scores (make_evaluation_entry env cfg sc scores sp nt nv)) k =
     (case map_of (rev scores) k of
        Some v \<Rightarrow> Some (Score v)
      | None \<Rightarrow> if k = name (objective cfg) then Some (Score sc) else None)"
proof -
  have r: "map_of (rev (map (\<lambda>(k, v). (k, Score v)) scores)) = map_option Score \<circ> map_of (rev scores)"
    by (simp add: rev_map map_of_map)
  show ?thesis
    using assms
    by (simp add: make_evaluation_entry_def Let_def map_of_dict_update r map_add_def
        split: option.splits del: map_of_append)
qed

lemma entry_sizes:
  "map_of (all_objective_scores (make_evaluation_entry env cfg sc scores sp nt nv)) ''# Training''
     = Some (Size nt)
   \<and> map_of (all_objective_scores (make_evaluation_entry env cfg sc scores sp nt nv)) ''# Validation''
     = Some (Size nv)"
  by (simp add: make_evaluation_entry_def Let_def map_of_dict_update map_add_def
      split: option.splits del: map_of_append)

lemma entry_fields:
  "mean_cv_score (make_evaluation_entry env cfg sc scores sp nt nv) = sc"
  "binary_classification_threshold (make_evaluation_entry env cfg sc scores sp nt nv) =
     (if is_binary env (problem_type cfg) then threshold sp else None)"
  by (simp_all add: make_evaluation_entry_def Let_def)

section \<open>The handler of \<open>_train_and_score\<close>\<close>

lemma try_outcome:
  "fst (try_train_and_score env p cfg prefix Xt Xs yt ys st) =
     (case train_pipeline env p Xt yt cfg False True of
        Inl e \<Rightarrow> Inl (e, p)
      | Inr (fp, h) \<Rightarrow>
          (case pipeline_score env fp Xs ys (objective cfg # additional_objectives cfg) Xt yt of
             Inl e \<Rightarrow> Inl (e, fp)
           | Inr scores \<Rightarrow>
               (case map_of scores (name (objective cfg)) of
                  None \<Rightarrow> Inl (KeyError (name (objective cfg)), fp)
                | Some sc \<Rightarrow> Inr (sc, scores, fp))))"
  unfolding try_train_and_score_def Let_def
  by (simp split: sum.splits prod.splits option.splits)

lemma try_outcome_state:
  "fst (try_train_and_score env p cfg prefix Xt Xs yt ys st) =
   fst (try_train_and_score env p cfg prefix' Xt Xs yt ys st')"
  by (simp only: try_outcome)

lemma try_calls:
  "calls (snd (try_train_and_score env p cfg prefix Xt Xs yt ys st)) =
   calls st @ Train_pipeline_call p Xt yt #
     (case train_pipeline env p Xt yt cfg False True of
        Inl e \<Rightarrow> []
      | Inr (fp, h) \<Rightarrow> [Score_call fp Xs ys (objective cfg # additional_objectives cfg) Xt yt])"
  unfolding try_train_and_score_def Let_def log_debug_def record_call_def
  by (simp split: sum.splits prod.splits option.splits)

text \<open>The outcome of the handler.\<close>

lemma train_and_score_success:
  assumes "try_train_and_score env p cfg (''Fold '' @ str n) Xt Xs yt ys st = (Inr v, st1)"
  shows "train_and_score env p cfg (Some n) Xt Xs yt ys fn st = (Inr v, st1)"
  using assms by (simp add: train_and_score_def)

lemma train_and_score_handled:
  assumes t: "try_train_and_score env p cfg (''Fold '' @ str n) Xt Xs yt ys st = (Inl (e, fp), st1)"
    and e: "is_Exception e"
    and cb: "\<forall>cb. error_callback cfg = Some cb \<longrightarrow>
               call_error_callback env cb e (format_tb env e) cfg n p = None"
    and s: "scores_after_failure cfg e = Inr (sc, scores)"
  shows "train_and_score env p cfg (Some n) Xt Xs yt ys fn st =
     (Inr (sc, scores, fp),
      (case error_callback cfg of
         None \<Rightarrow> st1
       | Some cb \<Rightarrow> record_call (Error_callback_call cb e (format_tb env e) cfg n p) st1))"
proof (cases "error_callback cfg")
  case None
  then show ?thesis using t by (simp add: train_and_score_def e s)
next
  case (Some c)
  with cb have "call_error_callback env c e (format_tb env e) cfg n p = None" by simp
  then show ?thesis using t by (simp add: train_and_score_def e s Some)
qed

lemma nan_dict:
  "(k, v) \<in> set (dict_of (zip ks (replicate (length ks) NaN))) \<Longrightarrow> v = NaN"
proof -
  assume "(k, v) \<in> set (dict_of (zip ks (replicate (length ks) NaN)))"
  with set_dict_update [of "[]" "zip ks (replicate (length ks) NaN)"]
  have "(k, v) \<in> set (zip ks (replicate (length ks) NaN))" by (auto simp: dict_of_def)
  then have "v \<in> set (replicate (length ks) NaN)" by (rule set_zip_rightD)
  then show ?thesis by simp
qed

lemma nan_dict_keys:
  "fst ` set (dict_of (zip ks (replicate (length ks) NaN))) = set ks"
proof -
  have "fst ` set (zip ks (replicate (length ks) NaN)) = set ks"
    by (metis length_replicate map_fst_zip set_map)
  then show ?thesis by (simp add: dict_of_def dom_dict_update)
qed

lemma scores_after_other:
  "\<not> is_PipelineScoreError e \<Longrightarrow>
   scores_after_failure cfg e =
     Inr (NaN, dict_of (zip (map name (additional_objectives cfg))
                 (replicate (length (additional_objectives cfg)) NaN)))"
  by (cases e) simp_all

lemma nan_entry_lookup:
  assumes ob: "ob \<in> set (objective cfg # additional_objectives cfg)"
    and nm: "name ob \<noteq> ''# Training''" "name ob \<noteq> ''# Validation''"
  shows "map_of (all_objective_scores (make_evaluation_entry env cfg NaN
            (dict_of (zip (map name (additional_objectives cfg))
               (replicate (length (additional_objectives cfg)) NaN))) sp nt nv)) (name ob)
         = Some (Score NaN)"
proof -
  let ?d = "dict_of (zip (map name (additional_objectives cfg))
               (replicate (length (additional_objectives cfg)) NaN))"
  have keys: "fst ` set ?d = name ` set (additional_objectives cfg)"
    using nan_dict_keys [of "map name (additional_objectives cfg)"] by simp
  show ?thesis
  proof (cases "map_of (rev ?d) (name ob)")
    case None
    then have "name ob \<notin> fst ` set ?d" by (simp add: map_of_eq_None_iff)
    with keys ob have eq: "name ob = name (objective cfg)" by auto
    have "map_of (all_objective_scores (make_evaluation_entry env cfg NaN ?d sp nt nv)) (name ob)
          = (if name ob = name (objective cfg) then Some (Score NaN) else None)"
      unfolding entry_lookup [OF nm] None by simp
    then show ?thesis unfolding if_P [OF eq] .
  next
    case (Some v)
    then have "(name ob, v) \<in> set (rev ?d)" by (rule map_of_SomeD)
    then have "(name ob, v) \<in> set ?d" by simp
    then have "v = NaN" using nan_dict [of "name ob" v "map name (additional_objectives cfg)"] by simp
    then show ?thesis unfolding entry_lookup [OF nm] Some by simp
  qed
qed

lemma cv_fold_reaches:
  assumes "iloc full_X_train train = Inr X_train" "iloc full_X_train valid = Inr X_valid"
    "iloc full_y_train train = Inr y_train" "iloc full_y_train valid = Inr y_valid"
    "missing_target_values env cfg full_y_train y_train y_valid = None"
  shows "cv_fold env p cfg full_X_train full_y_train i train valid st =
     (case train_and_score env p cfg (Some i) X_train X_valid y_train y_valid (Some i)
             (log_debug (tab @ tab @ ''Training and scoring on fold '' @ str i) st) of
        (Inl e, st') \<Rightarrow> (Inl e, st')
      | (Inr (sc, scores, sp), st') \<Rightarrow>
          (Inr (make_evaluation_entry env cfg sc scores sp (length y_train) (length y_valid), sp),
           st'))"
  by (simp add: cv_fold_def Let_def assms)

text \<open>
  C3. A fold that reaches training, and whose training or scoring raises an exception
  \<open>e\<close> that derives from \<open>Exception\<close> and is not a \<open>PipelineScoreError\<close>, ends
  with an evaluation entry that records NaN for the primary objective and for every
  additional objective (and NaN as the fold's score); and among the calls the fold made
  there is exactly one call of the error callback when one is configured (none otherwise),
  with \<open>e\<close>, its formatted traceback, the configuration, the number of the fold and the
  pipeline that was passed in. The callback is taken to return normally, and no objective
  to be named like one of the two row counts of the entry.
\<close>

theorem fold_failure_all_nan:
  assumes slices: "iloc full_X_train train = Inr X_train" "iloc full_X_train valid = Inr X_valid"
      "iloc full_y_train train = Inr y_train" "iloc full_y_train valid = Inr y_valid"
    and complete: "missing_target_values env automl_config full_y_train y_train y_valid = None"
    and raised: "fst (try_train_and_score env pipeline automl_config (''Fold '' @ str i)
                   X_train X_valid y_train y_valid st0) = Inl (e, fitted)"
    and caught: "is_Exception e"
    and other: "\<not> is_PipelineScoreError e"
    and cb: "\<forall>cb. error_callback automl_config = Some cb \<longrightarrow>
               call_error_callback env cb e (format_tb env e) automl_config i pipeline = None"
    and names: "\<forall>ob \<in> set (objective automl_config # additional_objectives automl_config).
               name ob \<noteq> ''# Training'' \<and> name ob \<noteq> ''# Validation''"
  shows "\<exists>entry st'.
     cv_fold env pipeline automl_config full_X_train full_y_train i train valid st
       = (Inr (entry, fitted), st')
     \<and> mean_cv_score entry = NaN
     \<and> (\<forall>ob \<in> set (objective automl_config # additional_objectives automl_config).
          map_of (all_objective_scores entry) (name ob) = Some (Score NaN))
     \<and> filter is_Error_callback_call (drop (length (calls st)) (calls st')) =
         (case error_callback automl_config of
            None \<Rightarrow> []
          | Some cb \<Rightarrow>
              [Error_callback_call cb e (format_tb env e) automl_config i pipeline])"
proof -
  let ?st1 = "log_debug (tab @ tab @ ''Training and scoring on fold '' @ str i) st"
  let ?body = "try_train_and_score env pipeline automl_config (''Fold '' @ str i)
                X_train X_valid y_train y_valid ?st1"
  let ?d = "dict_of (zip (map name (additional_objectives automl_config))
               (replicate (length (additional_objectives automl_config)) NaN))"
  let ?st2 = "case error_callback automl_config of
         None \<Rightarrow> snd ?body
       | Some cb \<Rightarrow> record_call (Error_callback_call cb e (format_tb env e) automl_config i
           pipeline) (snd ?body)"
  let ?entry = "make_evaluation_entry env automl_config NaN ?d fitted (length y_train) (length y_valid)"
  have "fst ?body = Inl (e, fitted)"
    using raised try_outcome_state [of env pipeline automl_config "''Fold '' @ str i" X_train
      X_valid y_train y_valid ?st1 "''Fold '' @ str i" st0] by simp
  then have t: "?body = (Inl (e, fitted), snd ?body)"
    by (metis prod.collapse)
  have ts: "train_and_score env pipeline automl_config (Some i) X_train X_valid y_train y_valid
      (Some i) ?st1 = (Inr (NaN, ?d, fitted), ?st2)"
    by (rule train_and_score_handled [OF t caught cb scores_after_other [OF other]])
  have fold: "cv_fold env pipeline automl_config full_X_train full_y_train i train valid st
       = (Inr (?entry, fitted), ?st2)"
    unfolding cv_fold_reaches [OF slices complete] ts by simp
  have m: "mean_cv_score ?entry = NaN" by (simp add: entry_fields)
  have l: "\<forall>ob \<in> set (objective automl_config # additional_objectives automl_config).
          map_of (all_objective_scores ?entry) (name ob) = Some (Score NaN)"
  proof
    fix ob assume ob: "ob \<in> set (objective automl_config # additional_objectives automl_config)"
    with names have "name ob \<noteq> ''# Training''" "name ob \<noteq> ''# Validation''" by auto
    from nan_entry_lookup [OF ob this]
    show "map_of (all_objective_scores ?entry) (name ob) = Some (Score NaN)" .
  qed
  have c: "filter is_Error_callback_call (drop (length (calls st)) (calls ?st2)) =
         (case error_callback automl_config of
            None \<Rightarrow> []
          | Some cb \<Rightarrow>
              [Error_callback_call cb e (format_tb env e) automl_config i pipeline])"
    by (simp add: try_calls log_debug_def record_call_def
        split: option.splits sum.splits prod.splits)
  from fold m l c show ?thesis by blast
qed

theorem fold_failure_all_nan_witness:
  "\<exists>entry st'.
     cv_fold example_env example_pipeline example_config example_X example_y 0 [0, 1] [2]
       \<lparr>logger = JobLogger_init, pipeline_cache = [], calls = []\<rparr>
       = (Inr (entry, example_pipeline), st')
     \<and> mean_cv_score entry = NaN
     \<and> map_of (all_objective_scores entry) ''B'' = Some (Score NaN)
     \<and> map_of (all_objective_scores entry) ''A'' = Some (Score NaN)
     \<and> filter is_Error_callback_call (calls st') =
         [Error_callback_call () (Exception ''fit failed'') [''Traceback''] example_config 0
            example_pipeline]"
proof -
  have s1: "iloc example_X [0, 1] = Inr [(0, 1), (1, 0)]"
    and s2: "iloc example_X [2] = Inr [(2, 0)]"
    and s3: "iloc example_y [0, 1] = Inr [30, 40]"
    and s4: "iloc example_y [2] = Inr [50]"
    by (simp_all add: iloc_def example_X_def example_y_def)
  have complete: "missing_target_values example_env example_config example_y [30, 40] [50] = None"
    by (simp add: missing_target_values_def example_env_def example_config_def)
  have raised: "fst (try_train_and_score example_env example_pipeline example_config
      (''Fold '' @ str 0) [(0, 1), (1, 0)] [(2, 0)] [30, 40] [50]
      \<lparr>logger = JobLogger_init, pipeline_cache = [], calls = []\<rparr>)
      = Inl (Exception ''fit failed'', example_pipeline)"
    by (simp add: try_outcome train_pipeline_def example_env_def example_config_def)
  have caught: "is_Exception (Exception ''fit failed'')"
    and other: "\<not> is_PipelineScoreError (Exception ''fit failed'')"
    by simp_all
  have cb: "\<forall>cb. error_callback example_config = Some cb \<longrightarrow>
      call_error_callback example_env cb (Exception ''fit failed'')
        (format_tb example_env (Exception ''fit failed'')) example_config 0 example_pipeline = None"
    by (simp add: example_env_def)
  have names: "\<forall>ob \<in> set (objective example_config # additional_objectives example_config).
      name ob \<noteq> ''# Training'' \<and> name ob \<noteq> ''# Validation''"
    by (simp add: example_config_def)
  from fold_failure_all_nan [OF s1 s2 s3 s4 complete raised caught other cb names,
      of "\<lparr>logger = JobLogger_init, pipeline_cache = [], calls = []\<rparr>"]
  obtain entry st' where
    f: "cv_fold example_env example_pipeline example_config example_X example_y 0 [0, 1] [2]
       \<lparr>logger = JobLogger_init, pipeline_cache = [], calls = []\<rparr>
       = (Inr (entry, example_pipeline), st')"
    and m: "mean_cv_score entry = NaN"
    and l: "\<forall>ob \<in> set (objective example_config # additional_objectives example_config).
          map_of (all_objective_scores entry) (name ob) = Some (Score NaN)"
    and c: "filter is_Error_callback_call
         (drop (length (calls \<lparr>logger = JobLogger_init, pipeline_cache = [],
            calls = ([] :: (nat, nat, unit) call list)\<rparr>)) (calls st')) =
         (case error_callback example_config of
            None \<Rightarrow> []
          | Some cb \<Rightarrow>
              [Error_callback_call cb (Exception ''fit failed'')
                 (format_tb example_env (Exception ''fit failed'')) example_config 0
                 example_pipeline])"
    by blast
  from l have "map_of (all_objective_scores entry) ''B'' = Some (Score NaN)"
    and "map_of (all_objective_scores entry) ''A'' = Some (Score NaN)"
    by (simp_all add: example_config_def)
  moreover from c have "filter is_Error_callback_call (calls st') =
         [Error_callback_call () (Exception ''fit failed'') [''Traceback''] example_config 0
            example_pipeline]"
    by (simp add: example_config_def example_env_def)
  ultimately show ?thesis using f m by blast
qed

section \<open>Partial scoring failures\<close>

lemma nan_scores_lookup:
  "map_of (dict_of (map (\<lambda>(ob, _). (ob, NaN)) exceptions)) k =
     (if k \<in> fst ` set exceptions then Some NaN else None)"
proof -
  let ?pairs = "map (\<lambda>(ob, _). (ob, NaN)) exceptions"
  have keys: "fst ` set ?pairs = fst ` set exceptions" by force
  have vals: "(k, v) \<in> set ?pairs \<Longrightarrow> v = NaN" for v by auto
  show ?thesis
  proof (cases "map_of (rev ?pairs) k")
    case None
    then have "k \<notin> fst ` set ?pairs" by (simp add: map_of_eq_None_iff)
    with None keys show ?thesis by (simp add: dict_of_def map_of_dict_update del: map_of_append)
  next
    case (Some v)
    then have "(k, v) \<in> set (rev ?pairs)" by (rule map_of_SomeD)
    then have in_pairs: "(k, v) \<in> set ?pairs" by simp
    then have "v = NaN" by (rule vals)
    moreover from in_pairs have "k \<in> fst ` set ?pairs" by force
    ultimately show ?thesis using Some keys
      by (simp add: dict_of_def map_of_dict_update del: map_of_append)
  qed
qed

lemma merged_lookup:
  assumes "distinct (map fst scored_successfully)"
  shows "map_of (dict_update (dict_of (map (\<lambda>(ob, _). (ob, NaN)) exceptions)) scored_successfully) k =
     (case map_of scored_successfully k of
        Some v \<Rightarrow> Some v
      | None \<Rightarrow> if k \<in> fst ` set exceptions then Some NaN else None)"
  by (simp add: map_of_dict_update map_of_rev_distinct [OF assms] map_add_def nan_scores_lookup
      split: option.splits)

lemma scores_by_name_lookup:
  "scores_by_name m obs acc = Inr r \<Longrightarrow>
   map_of r k = (if k \<in> name ` set obs then map_of m k else map_of acc k)"
proof (induction obs arbitrary: acc)
  case Nil
  then show ?case by simp
next
  case (Cons ob obs)
  from Cons.prems obtain v where v: "map_of m (name ob) = Some v"
    and r: "scores_by_name m obs (AList.update (name ob) v acc) = Inr r"
    by (auto split: option.splits)
  from Cons.IH [OF r] v show ?case by (auto simp: update_conv')
qed

lemma scores_by_name_distinct:
  "scores_by_name m obs acc = Inr r \<Longrightarrow> distinct (map fst acc) \<Longrightarrow> distinct (map fst r)"
proof (induction obs arbitrary: acc)
  case Nil
  then show ?case by simp
next
  case (Cons ob obs)
  from Cons.prems obtain v where v: "map_of m (name ob) = Some v"
    and r: "scores_by_name m obs (AList.update (name ob) v acc) = Inr r"
    by (auto split: option.splits)
  from Cons.prems have "distinct (map fst (AList.update (name ob) v acc))"
    by (simp add: distinct_update)
  from Cons.IH [OF r this] show ?case .
qed

lemma scores_by_name_total:
  "\<forall>ob \<in> set obs. map_of m (name ob) \<noteq> None \<Longrightarrow> \<exists>r. scores_by_name m obs acc = Inr r"
  by (induction obs arbitrary: acc) auto

lemma scores_by_name_keys:
  "scores_by_name m obs acc = Inr r \<Longrightarrow> distinct (map name obs) \<Longrightarrow>
   set (map name obs) \<inter> set (map fst acc) = {} \<Longrightarrow>
   map fst r = map fst acc @ map name obs"
proof (induction obs arbitrary: acc)
  case Nil
  then show ?case by simp
next
  case (Cons ob obs)
  from Cons.prems obtain v where v: "map_of m (name ob) = Some v"
    and r: "scores_by_name m obs (AList.update (name ob) v acc) = Inr r"
    by (auto split: option.splits)
  from Cons.prems have new: "name ob \<notin> set (map fst acc)" by auto
  then have keys: "map fst (AList.update (name ob) v acc) = map fst acc @ [name ob]"
    by (simp add: update_keys)
  from Cons.prems have d: "distinct (map name obs)" by simp
  from Cons.prems have "set (map name obs) \<inter> set (map fst (AList.update (name ob) v acc)) = {}"
    unfolding keys by auto
  from Cons.IH [OF r d this] show ?case by (simp add: keys)
qed

lemma scores_after_partial:
  assumes d: "distinct (map fst scored_successfully)"
    and covered: "\<forall>ob \<in> set (objective cfg # additional_objectives cfg).
        name ob \<in> fst ` set exceptions \<union> fst ` set scored_successfully"
  shows "\<exists>scores.
     scores_after_failure cfg (PipelineScoreError exceptions scored_successfully) =
       Inr (case map_of scored_successfully (name (objective cfg)) of
              Some v \<Rightarrow> v | None \<Rightarrow> NaN, scores)
     \<and> distinct (map fst scores)
     \<and> (\<forall>ob \<in> set (objective cfg # additional_objectives cfg).
          map_of scores (name ob) =
            Some (case map_of scored_successfully (name ob) of Some v \<Rightarrow> v | None \<Rightarrow> NaN))"
proof -
  let ?merged = "dict_update (dict_of (map (\<lambda>(ob, _). (ob, NaN)) exceptions)) scored_successfully"
  let ?obs = "objective cfg # additional_objectives cfg"
  have look: "map_of ?merged (name ob) =
      Some (case map_of scored_successfully (name ob) of Some v \<Rightarrow> v | None \<Rightarrow> NaN)"
    if ob: "ob \<in> set ?obs" for ob
  proof (cases "map_of scored_successfully (name ob)")
    case None
    then have "name ob \<notin> fst ` set scored_successfully" by (simp add: map_of_eq_None_iff)
    with covered ob have "name ob \<in> fst ` set exceptions" by blast
    with None show ?thesis by (simp add: merged_lookup [OF d])
  next
    case (Some v)
    then show ?thesis by (simp add: merged_lookup [OF d])
  qed
  then have "\<forall>ob \<in> set ?obs. map_of ?merged (name ob) \<noteq> None" by simp
  from scores_by_name_total [OF this] obtain r where r: "scores_by_name ?merged ?obs [] = Inr r"
    by blast
  have rd: "distinct (map fst r)" using scores_by_name_distinct [OF r] by simp
  have rl: "map_of r (name ob) =
      Some (case map_of scored_successfully (name ob) of Some v \<Rightarrow> v | None \<Rightarrow> NaN)"
    if ob: "ob \<in> set ?obs" for ob
  proof -
    from ob have "name ob \<in> name ` set ?obs" by (rule imageI)
    with scores_by_name_lookup [OF r, of "name ob"] have "map_of r (name ob) = map_of ?merged (name ob)"
      by simp
    with look [OF ob] show ?thesis by simp
  qed
  have prim: "map_of r (name (objective cfg)) =
      Some (case map_of scored_successfully (name (objective cfg)) of Some v \<Rightarrow> v | None \<Rightarrow> NaN)"
    by (rule rl) simp
  have "scores_after_failure cfg (PipelineScoreError exceptions scored_successfully) =
       Inr (case map_of scored_successfully (name (objective cfg)) of
              Some v \<Rightarrow> v | None \<Rightarrow> NaN, r)"
    using r prim by (simp add: Let_def)
  with rd rl show ?thesis by blast
qed

text \<open>
  C4. A fold that reaches training and whose training or scoring raises a
  \<open>PipelineScoreError\<close> ends with an evaluation entry that keeps, for every objective
  that is a key of \<open>scored_successfully\<close>, the score found there, and records NaN
  for every other objective; the fold's own score is the primary objective's. Every
  configured objective is taken to be a key of \<open>exceptions\<close> or of
  \<open>scored_successfully\<close> (the handler raises \<open>KeyError\<close> otherwise), the callback to
  return normally, and no objective to be named like one of the two row counts.
\<close>

theorem fold_partial_failure:
  assumes slices: "iloc full_X_train train = Inr X_train" "iloc full_X_train valid = Inr X_valid"
      "iloc full_y_train train = Inr y_train" "iloc full_y_train valid = Inr y_valid"
    and complete: "missing_target_values env automl_config full_y_train y_train y_valid = None"
    and raised: "fst (try_train_and_score env pipeline automl_config (''Fold '' @ str i)
                   X_train X_valid y_train y_valid st0)
                 = Inl (PipelineScoreError exceptions scored_successfully, fitted)"
    and cb: "\<forall>cb. error_callback automl_config = Some cb \<longrightarrow>
               call_error_callback env cb (PipelineScoreError exceptions scored_successfully)
                 (format_tb env (PipelineScoreError exceptions scored_successfully))
                 automl_config i pipeline = None"
    and dict: "distinct (map fst scored_successfully)"
    and covered: "\<forall>ob \<in> set (objective automl_config # additional_objectives automl_config).
               name ob \<in> fst ` set exceptions \<union> fst ` set scored_successfully"
    and names: "\<forall>ob \<in> set (objective automl_config # additional_objectives automl_config).
               name ob \<noteq> ''# Training'' \<and> name ob \<noteq> ''# Validation''"
  shows "\<exists>entry st'.
     cv_fold env pipeline automl_config full_X_train full_y_train i train valid st
       = (Inr (entry, fitted), st')
     \<and> (\<forall>ob \<in> set (objective automl_config # additional_objectives automl_config).
          map_of (all_objective_scores entry) (name ob) =
            (case map_of scored_successfully (name ob) of
               Some v \<Rightarrow> Some (Score v)
             | None \<Rightarrow> Some (Score NaN)))
     \<and> mean_cv_score entry =
         (case map_of scored_successfully (name (objective automl_config)) of
            Some v \<Rightarrow> v | None \<Rightarrow> NaN)"
proof -
  let ?e = "PipelineScoreError exceptions scored_successfully"
  let ?st1 = "log_debug (tab @ tab @ ''Training and scoring on fold '' @ str i) st"
  let ?body = "try_train_and_score env pipeline automl_config (''Fold '' @ str i)
                X_train X_valid y_train y_valid ?st1"
  let ?sc = "case map_of scored_successfully (name (objective automl_config)) of
            Some v \<Rightarrow> v | None \<Rightarrow> NaN"
  let ?st2 = "case error_callback automl_config of
         None \<Rightarrow> snd ?body
       | Some cb \<Rightarrow> record_call (Error_callback_call cb ?e (format_tb env ?e) automl_config i
           pipeline) (snd ?body)"
  from scores_after_partial [OF dict covered] obtain scores where
    s: "scores_after_failure automl_config ?e = Inr (?sc, scores)"
    and sd: "distinct (map fst scores)"
    and sl: "\<forall>ob \<in> set (objective automl_config # additional_objectives automl_config).
          map_of scores (name ob) =
            Some (case map_of scored_successfully (name ob) of Some v \<Rightarrow> v | None \<Rightarrow> NaN)"
    by blast
  let ?entry = "make_evaluation_entry env automl_config ?sc scores fitted
                  (length y_train) (length y_valid)"
  have "fst ?body = Inl (?e, fitted)"
    using raised try_outcome_state [of env pipeline automl_config "''Fold '' @ str i" X_train
      X_valid y_train y_valid ?st1 "''Fold '' @ str i" st0] by simp
  then have t: "?body = (Inl (?e, fitted), snd ?body)"
    by (metis prod.collapse)
  have caught: "is_Exception ?e" by simp
  have ts: "train_and_score env pipeline automl_config (Some i) X_train X_valid y_train y_valid
      (Some i) ?st1 = (Inr (?sc, scores, fitted), ?st2)"
    by (rule train_and_score_handled [OF t caught cb s])
  have fold: "cv_fold env pipeline automl_config full_X_train full_y_train i train valid st
       = (Inr (?entry, fitted), ?st2)"
    unfolding cv_fold_reaches [OF slices complete] ts by simp
  have m: "mean_cv_score ?entry = ?sc" by (simp add: entry_fields)
  have l: "\<forall>ob \<in> set (objective automl_config # additional_objectives automl_config).
          map_of (all_objective_scores ?entry) (name ob) =
            (case map_of scored_successfully (name ob) of
               Some v \<Rightarrow> Some (Score v)
             | None \<Rightarrow> Some (Score NaN))"
  proof
    fix ob assume ob: "ob \<in> set (objective automl_config # additional_objectives automl_config)"
    with names have nm: "name ob \<noteq> ''# Training''" "name ob \<noteq> ''# Validation''" by auto
    from sl ob have "map_of scores (name ob) =
        Some (case map_of scored_successfully (name ob) of Some v \<Rightarrow> v | None \<Rightarrow> NaN)"
      by blast
    then have "map_of (rev scores) (name ob) =
        Some (case map_of scored_successfully (name ob) of Some v \<Rightarrow> v | None \<Rightarrow> NaN)"
      by (simp add: map_of_rev_distinct [OF sd])
    then show "map_of (all_objective_scores ?entry) (name ob) =
            (case map_of scored_successfully (name ob) of
               Some v \<Rightarrow> Some (Score v)
             | None \<Rightarrow> Some (Score NaN))"
      unfolding entry_lookup [OF nm] by (simp split: option.splits)
  qed
  from fold m l show ?thesis by blast
qed

theorem fold_partial_failure_witness:
  "\<exists>entry st'.
     cv_fold example_env example_pipeline partial_config partial_X example_y 0 [0, 1] [2]
       \<lparr>logger = JobLogger_init, pipeline_cache = [], calls = []\<rparr>
       = (Inr (entry, example_pipeline\<lparr>component_instances := 1\<rparr>), st')
     \<and> map_of (all_objective_scores entry) ''A'' = Some (Score NaN)
     \<and> map_of (all_objective_scores entry) ''B'' = Some (Score (Float (4 / 5)))
     \<and> mean_cv_score entry = Float (4 / 5)"
proof -
  have s1: "iloc partial_X [0, 1] = Inr [(0, 0), (1, 0)]"
    and s2: "iloc partial_X [2] = Inr [(2, 2)]"
    and s3: "iloc example_y [0, 1] = Inr [30, 40]"
    and s4: "iloc example_y [2] = Inr [50]"
    by (simp_all add: iloc_def partial_X_def example_y_def)
  have complete: "missing_target_values example_env partial_config example_y [30, 40] [50] = None"
    by (simp add: missing_target_values_def example_env_def example_config_def partial_config_def)
  have raised: "fst (try_train_and_score example_env example_pipeline partial_config
      (''Fold '' @ str 0) [(0, 0), (1, 0)] [(2, 2)] [30, 40] [50]
      \<lparr>logger = JobLogger_init, pipeline_cache = [], calls = []\<rparr>)
      = Inl (PipelineScoreError [(''A'', ''could not score'')] [(''B'', Float (4 / 5))],
             example_pipeline\<lparr>component_instances := 1\<rparr>)"
    by (simp add: try_outcome train_pipeline_def example_env_def example_config_def
        partial_config_def example_pipeline_def)
  have cb: "\<forall>cb. error_callback partial_config = Some cb \<longrightarrow>
      call_error_callback example_env cb
        (PipelineScoreError [(''A'', ''could not score'')] [(''B'', Float (4 / 5))])
        (format_tb example_env
           (PipelineScoreError [(''A'', ''could not score'')] [(''B'', Float (4 / 5))]))
        partial_config 0 example_pipeline = None"
    by (simp add: example_env_def)
  have dict: "distinct (map fst [(''B'', Float (4 / 5))])" by simp
  have covered: "\<forall>ob \<in> set (objective partial_config # additional_objectives partial_config).
      name ob \<in> fst ` set [(''A'', ''could not score'')] \<union> fst ` set [(''B'', Float (4 / 5))]"
    by (simp add: example_config_def partial_config_def)
  have names: "\<forall>ob \<in> set (objective partial_config # additional_objectives partial_config).
      name ob \<noteq> ''# Training'' \<and> name ob \<noteq> ''# Validation''"
    by (simp add: example_config_def partial_config_def)
  from fold_partial_failure [OF s1 s2 s3 s4 complete raised cb dict covered names,
      of "\<lparr>logger = JobLogger_init, pipeline_cache = [], calls = []\<rparr>"]
  obtain entry st' where
    f: "cv_fold example_env example_pipeline partial_config partial_X example_y 0 [0, 1] [2]
       \<lparr>logger = JobLogger_init, pipeline_cache = [], calls = []\<rparr>
       = (Inr (entry, example_pipeline\<lparr>component_instances := 1\<rparr>), st')"
    and l: "\<forall>ob \<in> set (objective partial_config # additional_objectives partial_config).
          map_of (all_objective_scores entry) (name ob) =
            (case map_of [(''B'', Float (4 / 5))] (name ob) of
               Some v \<Rightarrow> Some (Score v)
             | None \<Rightarrow> Some (Score NaN))"
    and m: "mean_cv_score entry =
         (case map_of [(''B'', Float (4 / 5))] (name (objective partial_config)) of
            Some v \<Rightarrow> v | None \<Rightarrow> NaN)"
    by blast
  from l have "map_of (all_objective_scores entry) ''A'' = Some (Score NaN)"
    and "map_of (all_objective_scores entry) ''B'' = Some (Score (Float (4 / 5)))"
    by (simp_all add: example_config_def partial_config_def)
  moreover from m have "mean_cv_score entry = Float (4 / 5)"
    by (simp add: example_config_def partial_config_def)
  ultimately show ?thesis using f by blast
qed

section \<open>Folds and the loop\<close>

lemma iloc_Inr: "iloc rows positions = Inr sl \<Longrightarrow>
  sl = map (\<lambda>i. rows ! i) positions \<and> (\<forall>i \<in> set positions. i < length rows)"
  by (auto simp: iloc_def split: if_splits)

lemma iloc_in_range:
  "\<forall>i \<in> set positions. i < length rows \<Longrightarrow> iloc rows positions = Inr (map (\<lambda>i. rows ! i) positions)"
  by (simp add: iloc_def)

lemma set_setdiff1d: "set (setdiff1d a b) = set a - set b"
  by (auto simp: setdiff1d_def)

lemma setdiff1d_empty: "setdiff1d a b = [] \<longleftrightarrow> set a \<subseteq> set b"
proof -
  have "setdiff1d a b = [] \<longleftrightarrow> set (setdiff1d a b) = {}" by simp
  then show ?thesis by (auto simp: set_setdiff1d)
qed

lemma missing_none:
  "handle_problem_types env (problem_type cfg) \<in> {BINARY, MULTICLASS} \<longrightarrow>
     set y \<subseteq> set y_train \<and> set y \<subseteq> set y_valid \<Longrightarrow>
   missing_target_values env cfg y y_train y_valid = None"
  by (auto simp: missing_target_values_def Let_def setdiff1d_empty)

lemma cv_fold_Inr:
  assumes "cv_fold env p cfg X y i train valid st = (Inr (entry, sp), st')"
  shows "\<exists>sc scores.
     (\<forall>j \<in> set train \<union> set valid. j < length X \<and> j < length y)
     \<and> train_and_score env p cfg (Some i) (map (\<lambda>j. X ! j) train) (map (\<lambda>j. X ! j) valid)
         (map (\<lambda>j. y ! j) train) (map (\<lambda>j. y ! j) valid) (Some i)
         (log_debug (tab @ tab @ ''Training and scoring on fold '' @ str i) st)
         = (Inr (sc, scores, sp), st')
     \<and> entry = make_evaluation_entry env cfg sc scores sp (length train) (length valid)"
  using assms unfolding cv_fold_def Let_def
  by (auto simp: iloc_def split: sum.splits option.splits prod.splits if_splits)

text \<open>The calls one pass of \<open>_train_and_score\<close> adds to the history.\<close>

lemma callback_not_train: "is_Error_callback_call c \<Longrightarrow> \<not> is_Train_pipeline_call c"
  by (cases c) simp_all

lemma train_and_score_calls:
  assumes "train_and_score env p cfg (Some n) Xt Xs yt ys fn st = (r, st')"
  shows "\<exists>rest. calls st' = calls st @ Train_pipeline_call p Xt yt # rest
     \<and> (\<forall>c \<in> set rest. \<not> is_Train_pipeline_call c)
     \<and> (\<forall>fp X y obs X' y'. Score_call fp X y obs X' y' \<in> set rest \<longrightarrow>
           X = Xs \<and> y = ys \<and> obs = objective cfg # additional_objectives cfg
           \<and> X' = Xt \<and> y' = yt)"
proof -
  let ?body = "try_train_and_score env p cfg (''Fold '' @ str n) Xt Xs yt ys st"
  let ?score = "case train_pipeline env p Xt yt cfg False True of
        Inl e \<Rightarrow> []
      | Inr (fp, h) \<Rightarrow> [Score_call fp Xs ys (objective cfg # additional_objectives cfg) Xt yt]"
  obtain b st1 where b: "?body = (b, st1)" by (cases ?body)
  have c1: "calls st1 = calls st @ Train_pipeline_call p Xt yt # ?score"
    using try_calls [of env p cfg "''Fold '' @ str n" Xt Xs yt ys st] b by simp
  have "calls st' = calls st1 \<or> (\<exists>cb e tb. calls st' = calls st1 @ [Error_callback_call cb e tb cfg n p])"
    using assms b unfolding train_and_score_def
    by (auto simp: record_call_def split: sum.splits option.splits prod.splits if_splits)
  then obtain extra where e: "calls st' = calls st1 @ extra"
    and x: "\<forall>c \<in> set extra. is_Error_callback_call c"
    by (cases "calls st' = calls st1") auto
  let ?rest = "?score @ extra"
  have "calls st' = calls st @ Train_pipeline_call p Xt yt # ?rest" by (simp add: e c1)
  moreover have "\<forall>c \<in> set ?rest. \<not> is_Train_pipeline_call c"
    using x by (auto split: sum.splits prod.splits dest: callback_not_train)
  moreover have "\<forall>fp X y obs X' y'. Score_call fp X y obs X' y' \<in> set ?rest \<longrightarrow>
           X = Xs \<and> y = ys \<and> obs = objective cfg # additional_objectives cfg
           \<and> X' = Xt \<and> y' = yt"
    using x by (auto split: sum.splits prod.splits)
  ultimately show ?thesis by blast
qed

lemma train_and_score_train_calls:
  assumes "train_and_score env p cfg (Some n) Xt Xs yt ys fn st = (r, st')"
  shows "filter is_Train_pipeline_call (calls st') =
         filter is_Train_pipeline_call (calls st) @ [Train_pipeline_call p Xt yt]"
proof -
  from train_and_score_calls [OF assms] obtain rest where
    c: "calls st' = calls st @ Train_pipeline_call p Xt yt # rest"
    and n: "\<forall>c \<in> set rest. \<not> is_Train_pipeline_call c" by blast
  from n have "filter is_Train_pipeline_call rest = []" by (simp add: filter_empty_conv)
  then show ?thesis by (simp add: c)
qed

lemma cv_fold_train_calls:
  assumes "cv_fold env p cfg X y i train valid st = (Inr (entry, sp), st')"
  shows "filter is_Train_pipeline_call (calls st') =
         filter is_Train_pipeline_call (calls st)
           @ [Train_pipeline_call p (map (\<lambda>j. X ! j) train) (map (\<lambda>j. y ! j) train)]"
proof -
  from cv_fold_Inr [OF assms] obtain sc scores where
    "train_and_score env p cfg (Some i) (map (\<lambda>j. X ! j) train) (map (\<lambda>j. X ! j) valid)
         (map (\<lambda>j. y ! j) train) (map (\<lambda>j. y ! j) valid) (Some i)
         (log_debug (tab @ tab @ ''Training and scoring on fold '' @ str i) st)
         = (Inr (sc, scores, sp), st')" by blast
  from train_and_score_train_calls [OF this] show ?thesis by (simp add: log_debug_def)
qed

lemma cv_fold_sizes:
  assumes "cv_fold env p cfg X y i train valid st = (Inr (entry, sp), st')"
  shows "map_of (all_objective_scores entry) ''# Training'' = Some (Size (length train))
       \<and> map_of (all_objective_scores entry) ''# Validation'' = Some (Size (length valid))"
proof -
  from cv_fold_Inr [OF assms] obtain sc scores where
    "entry = make_evaluation_entry env cfg sc scores sp (length train) (length valid)" by blast
  then show ?thesis using entry_sizes by simp
qed

text \<open>The loop, over a list of folds split in two.\<close>

lemma cross_validation_append:
  "cross_validation env p cfg X y i (pre @ post) acc sp st =
     (case cross_validation env p cfg X y i pre acc sp st of
        (Inl e, s) \<Rightarrow> (Inl e, s)
      | (Inr (acc', sp'), s) \<Rightarrow>
          cross_validation env p cfg X y (i + length pre) post acc' sp' s)"
proof (induction pre arbitrary: i acc sp st)
  case Nil
  show ?case by simp
next
  case (Cons f pre)
  obtain train valid where f: "f = (train, valid)" by (cases f)
  show ?case
    by (simp add: f Cons.IH split: sum.splits prod.splits)
qed

lemma cross_validation_Inr:
  "cross_validation env p cfg X y i splits acc sp st = (Inr (cv, sp'), st') \<Longrightarrow>
   \<exists>entries. cv = acc @ entries \<and> length entries = length splits
     \<and> (\<forall>j < length splits.
          map_of (all_objective_scores (entries ! j)) ''# Training''
            = Some (Size (length (fst (splits ! j))))
          \<and> map_of (all_objective_scores (entries ! j)) ''# Validation''
            = Some (Size (length (snd (splits ! j)))))
     \<and> filter is_Train_pipeline_call (calls st') =
         filter is_Train_pipeline_call (calls st) @ map (fold_train_call p X y) splits"
proof (induction splits arbitrary: i acc sp st)
  case Nil
  then show ?case by simp
next
  case (Cons f splits)
  obtain train valid where f: "f = (train, valid)" by (cases f)
  from Cons.prems obtain entry sp1 st1 where
    fold: "cv_fold env p cfg X y i train valid st = (Inr (entry, sp1), st1)"
    and rest: "cross_validation env p cfg X y (Suc i) splits (acc @ [entry]) sp1 st1
               = (Inr (cv, sp'), st')"
    by (auto simp: f split: sum.splits prod.splits)
  from Cons.IH [OF rest] obtain entries where
    cv: "cv = (acc @ [entry]) @ entries" and len: "length entries = length splits"
    and sizes: "\<forall>j < length splits.
          map_of (all_objective_scores (entries ! j)) ''# Training''
            = Some (Size (length (fst (splits ! j))))
          \<and> map_of (all_objective_scores (entries ! j)) ''# Validation''
            = Some (Size (length (snd (splits ! j))))"
    and tc: "filter is_Train_pipeline_call (calls st') =
         filter is_Train_pipeline_call (calls st1) @ map (fold_train_call p X y) splits"
    by blast
  let ?entries = "entry # entries"
  have a: "cv = acc @ ?entries" by (simp add: cv)
  have b: "length ?entries = length (f # splits)" by (simp add: len)
  have c: "\<forall>j < length (f # splits).
          map_of (all_objective_scores (?entries ! j)) ''# Training''
            = Some (Size (length (fst ((f # splits) ! j))))
          \<and> map_of (all_objective_scores (?entries ! j)) ''# Validation''
            = Some (Size (length (snd ((f # splits) ! j))))"
  proof (intro allI impI)
    fix j assume j: "j < length (f # splits)"
    show "map_of (all_objective_scores (?entries ! j)) ''# Training''
            = Some (Size (length (fst ((f # splits) ! j))))
          \<and> map_of (all_objective_scores (?entries ! j)) ''# Validation''
            = Some (Size (length (snd ((f # splits) ! j))))"
    proof (cases j)
      case 0
      with cv_fold_sizes [OF fold] show ?thesis by (simp add: f)
    next
      case (Suc j')
      with j sizes show ?thesis by simp
    qed
  qed
  have d: "filter is_Train_pipeline_call (calls st') =
         filter is_Train_pipeline_call (calls st) @ map (fold_train_call p X y) (f # splits)"
    by (simp add: tc cv_fold_train_calls [OF fold] fold_train_call_def f)
  from a b c d show ?case by blast
qed

lemma evaluation_returns:
  fixes env :: "('x, 'c, 'cb) collaborators"
  assumes r: "train_and_score_pipeline env p cfg X y jl Xh yh = (Inr res, st)"
  defines "y' \<equiv> (if is_classification env (problem_type cfg)
                  then encode_classification_target env y else y)"
  defines "st0 \<equiv> (\<lparr>logger = info (tab @ ''Starting cross validation'') jl,
                   pipeline_cache = [], calls = []\<rparr> :: ('x, 'c, 'cb) state)"
  shows "\<exists>cv sp st1.
     cross_validation env p cfg X y' 0 (data_splitter cfg X y') [] p st0 = (Inr (cv, sp), st1)
     \<and> cv_data (result_scores res) = cv
     \<and> cv_scores (result_scores res) = map mean_cv_score cv
     \<and> cv_score_mean (result_scores res) = series_mean (map mean_cv_score cv)
     \<and> (case (Xh, yh) of
          (Some X_h, Some y_h) \<Rightarrow>
            (\<exists>st_h hs hss st2.
               train_and_score env p cfg (loop_variable_after (data_splitter cfg X y'))
                   X X_h y'
                   (if is_classification env (problem_type cfg)
                    then encode_classification_target env y_h else y_h) None st_h
                   = (Inr (hs, hss, result_pipeline res), st2)
               \<and> calls st_h = calls st1
               \<and> holdout_score (result_scores res) = Some hs
               \<and> holdout_scores (result_scores res) = Some hss
               \<and> calls st = calls st2)
        | _ \<Rightarrow>
            holdout_score (result_scores res) = None
            \<and> holdout_scores (result_scores res) = None
            \<and> calls st = calls st1 \<and> result_pipeline res = sp)"
proof -
  obtain out st1 where cvr: "cross_validation env p cfg X y' 0 (data_splitter cfg X y') [] p st0
      = (out, st1)"
    by (cases "cross_validation env p cfg X y' 0 (data_splitter cfg X y') [] p st0")
  show ?thesis
  proof (cases out)
    case (Inl e)
    from Inl cvr r show ?thesis
      unfolding train_and_score_pipeline_def Let_def y'_def st0_def by simp
  next
    case (Inr v)
    obtain cv sp where v: "v = (cv, sp)" by (cases v)
    show ?thesis
    proof (cases "\<exists>X_h y_h. Xh = Some X_h \<and> yh = Some y_h")
      case True
      then obtain X_h y_h where h: "Xh = Some X_h" "yh = Some y_h" by blast
      define yh' where "yh' = (if is_classification env (problem_type cfg)
                    then encode_classification_target env y_h else y_h)"
      define st_h where "st_h =
        log_debug (tab @ tab @ ''Training and scoring entire dataset'')
          (log_info (tab @ ''Starting holdout set scoring'')
            (log_info (tab @ ''Finished cross validation - mean ''
                         @ name (objective cfg) @ '': ''
                         @ format_3f env (series_mean (map mean_cv_score cv))) st1))"
      obtain o2 st2 where ts: "train_and_score env p cfg
          (loop_variable_after (data_splitter cfg X y')) X X_h y' yh' None st_h = (o2, st2)"
        by (cases "train_and_score env p cfg
          (loop_variable_after (data_splitter cfg X y')) X X_h y' yh' None st_h")
      have ch: "calls st_h = calls st1"
        by (simp add: st_h_def log_debug_def log_info_def)
      show ?thesis
      proof (cases o2)
        case (Inl e)
        from h \<open>out = Inr v\<close> v cvr ts Inl r show ?thesis
          unfolding train_and_score_pipeline_def Let_def y'_def st0_def st_h_def yh'_def
          by (simp split: if_splits)
      next
        case (Inr w)
        obtain hs hss sp' where w: "w = (hs, hss, sp')" by (cases w)
        from h \<open>out = Inr v\<close> v w Inr cvr ts r
        have res: "res = \<lparr>result_scores =
                 \<lparr>cv_data = cv, cv_scores = map mean_cv_score cv,
                  cv_score_mean = series_mean (map mean_cv_score cv),
                  holdout_score = Some hs, holdout_scores = Some hss\<rparr>,
               result_cached_data = pipeline_cache st2,
               result_pipeline = sp',
               result_logger = logger st\<rparr>"
          and st: "calls st = calls st2"
          unfolding train_and_score_pipeline_def Let_def y'_def st0_def st_h_def yh'_def
          by (auto simp: log_info_def split: if_splits)
        have t2: "train_and_score env p cfg (loop_variable_after (data_splitter cfg X y'))
                   X X_h y' yh' None st_h = (Inr (hs, hss, result_pipeline res), st2)"
          using ts Inr w by (simp add: res)
        have "cross_validation env p cfg X y' 0 (data_splitter cfg X y') [] p st0
                = (Inr (cv, sp), st1)"
          using cvr \<open>out = Inr v\<close> v by simp
        moreover have "cv_data (result_scores res) = cv"
          "cv_scores (result_scores res) = map mean_cv_score cv"
          "cv_score_mean (result_scores res) = series_mean (map mean_cv_score cv)"
          "holdout_score (result_scores res) = Some hs"
          "holdout_scores (result_scores res) = Some hss"
          by (simp_all add: res)
        ultimately show ?thesis
          using t2 ch st unfolding h yh'_def
          by (cases "is_classification env (problem_type cfg)"; simp; blast)
      qed
    next
      case False
      then have c: "(case (Xh, yh) of (Some X_h, Some y_h) \<Rightarrow> a X_h y_h | _ \<Rightarrow> b) = b" for a :: "'x frame \<Rightarrow> series \<Rightarrow> 'z" and b
        by (cases Xh; cases yh) simp_all
      from False have d: "(if is_classification env (problem_type cfg) \<and> Xh \<noteq> None \<and> yh \<noteq> None
           then map_option (encode_classification_target env) yh else yh) = yh"
        by (cases Xh; cases yh) simp_all
      from Inr v False cvr r show ?thesis
        unfolding train_and_score_pipeline_def Let_def y'_def st0_def
        by (cases Xh; cases yh) (auto simp: log_info_def split: sum.splits prod.splits)
    qed
  qed
qed

lemma scores_after_failure_total:
  assumes "covers_objectives cfg e"
  shows "\<exists>sc scores. scores_after_failure cfg e = Inr (sc, scores)"
proof (cases "is_PipelineScoreError e")
  case False
  then show ?thesis by (simp add: scores_after_other)
next
  case True
  then obtain ex ok where e: "e = PipelineScoreError ex ok" by (cases e) simp_all
  let ?merged = "dict_update (dict_of (map (\<lambda>(ob, _). (ob, NaN)) ex)) ok"
  let ?obs = "objective cfg # additional_objectives cfg"
  have k1: "fst ` set (map (\<lambda>(ob, _). (ob, NaN)) ex) = fst ` set ex" by force
  have keys: "fst ` set ?merged = fst ` set ex \<union> fst ` set ok"
    unfolding dom_dict_update dict_of_def k1 by simp
  have "\<forall>ob \<in> set ?obs. map_of ?merged (name ob) \<noteq> None"
    using assms unfolding e map_of_eq_None_iff keys by simp
  from scores_by_name_total [OF this] obtain r where r: "scores_by_name ?merged ?obs [] = Inr r"
    by blast
  have "name (objective cfg) \<in> name ` set ?obs" by simp
  with scores_by_name_lookup [OF r, of "name (objective cfg)"]
  have "map_of r (name (objective cfg)) = map_of ?merged (name (objective cfg))" by simp
  moreover have "map_of ?merged (name (objective cfg)) \<noteq> None"
    using assms unfolding e map_of_eq_None_iff keys by simp
  ultimately obtain sc where "map_of r (name (objective cfg)) = Some sc" by auto
  with r show ?thesis by (simp add: e Let_def)
qed

lemma train_and_score_total:
  assumes tp: "\<forall>e. train_pipeline env p Xt yt cfg False True = Inl e \<longrightarrow>
                 is_Exception e \<and> covers_objectives cfg e"
    and sc: "\<forall>fp e. pipeline_score env fp Xs ys (objective cfg # additional_objectives cfg) Xt yt
                 = Inl e \<longrightarrow> is_Exception e \<and> covers_objectives cfg e"
    and cb: "\<forall>cb e. error_callback cfg = Some cb \<longrightarrow>
               call_error_callback env cb e (format_tb env e) cfg n p = None"
  shows "\<exists>r st'. train_and_score env p cfg (Some n) Xt Xs yt ys fn st = (Inr r, st')"
proof -
  let ?body = "try_train_and_score env p cfg (''Fold '' @ str n) Xt Xs yt ys st"
  obtain b st1 where b: "?body = (b, st1)" by (cases ?body)
  show ?thesis
  proof (cases b)
    case (Inr v)
    with b train_and_score_success [of env p cfg n Xt Xs yt ys st v st1 fn]
    show ?thesis by blast
  next
    case (Inl w)
    obtain e fp where w: "w = (e, fp)" by (cases w)
    have "fst ?body = Inl (e, fp)" using b Inl w by simp
    then have "is_Exception e \<and> covers_objectives cfg e"
      unfolding try_outcome using tp sc
      by (auto split: sum.splits prod.splits option.splits)
    then have ex: "is_Exception e" and cov: "covers_objectives cfg e" by simp_all
    from scores_after_failure_total [OF cov] obtain s ss where
      s: "scores_after_failure cfg e = Inr (s, ss)" by blast
    have t: "?body = (Inl (e, fp), st1)" using b Inl w by simp
    from cb have cb': "\<forall>cb. error_callback cfg = Some cb \<longrightarrow>
               call_error_callback env cb e (format_tb env e) cfg n p = None" by blast
    from train_and_score_handled [OF t ex cb' s] show ?thesis by blast
  qed
qed

lemma train_and_score_unbound:
  "train_and_score env p cfg None Xt Xs yt ys fn st = (Inl (NameError ''i''), st)"
  by (simp add: train_and_score_def)

lemma cv_fold_total:
  assumes bounds: "\<forall>j \<in> set train \<union> set valid. j < length X \<and> j < length y"
    and present: "handle_problem_types env (problem_type cfg) \<in> {BINARY, MULTICLASS} \<longrightarrow>
       set y \<subseteq> (\<lambda>j. y ! j) ` set train \<and> set y \<subseteq> (\<lambda>j. y ! j) ` set valid"
    and tp: "\<forall>Xt yt e. train_pipeline env p Xt yt cfg False True = Inl e \<longrightarrow>
                 is_Exception e \<and> covers_objectives cfg e"
    and sc: "\<forall>fp Xs ys Xt yt e.
               pipeline_score env fp Xs ys (objective cfg # additional_objectives cfg) Xt yt = Inl e
                 \<longrightarrow> is_Exception e \<and> covers_objectives cfg e"
    and cb: "\<forall>cb e n. error_callback cfg = Some cb \<longrightarrow>
               call_error_callback env cb e (format_tb env e) cfg n p = None"
  shows "\<exists>entry sp st'. cv_fold env p cfg X y i train valid st = (Inr (entry, sp), st')"
proof -
  let ?Xt = "map (\<lambda>j. X ! j) train" and ?Xv = "map (\<lambda>j. X ! j) valid"
  let ?yt = "map (\<lambda>j. y ! j) train" and ?yv = "map (\<lambda>j. y ! j) valid"
  from bounds have s: "iloc X train = Inr ?Xt" "iloc X valid = Inr ?Xv"
    "iloc y train = Inr ?yt" "iloc y valid = Inr ?yv"
    by (simp_all add: iloc_def)
  have m: "missing_target_values env cfg y ?yt ?yv = None"
    by (rule missing_none) (use present in simp)
  from tp have tp': "\<forall>e. train_pipeline env p ?Xt ?yt cfg False True = Inl e \<longrightarrow>
                 is_Exception e \<and> covers_objectives cfg e" by blast
  from sc have sc': "\<forall>fp e.
       pipeline_score env fp ?Xv ?yv (objective cfg # additional_objectives cfg) ?Xt ?yt = Inl e
         \<longrightarrow> is_Exception e \<and> covers_objectives cfg e" by blast
  from cb have cb': "\<forall>cb e. error_callback cfg = Some cb \<longrightarrow>
               call_error_callback env cb e (format_tb env e) cfg i p = None" by blast
  from train_and_score_total [OF tp' sc' cb',
      of "Some i" "log_debug (tab @ tab @ ''Training and scoring on fold '' @ str i) st"]
  obtain r st' where "train_and_score env p cfg (Some i) ?Xt ?Xv ?yt ?yv (Some i)
      (log_debug (tab @ tab @ ''Training and scoring on fold '' @ str i) st) = (Inr r, st')"
    by blast
  then show ?thesis
    unfolding cv_fold_reaches [OF s m] by (cases r) auto
qed

lemma cross_validation_total:
  assumes bounds: "\<forall>(train, valid) \<in> set splits.
       \<forall>j \<in> set train \<union> set valid. j < length X \<and> j < length y"
    and present: "handle_problem_types env (problem_type cfg) \<in> {BINARY, MULTICLASS} \<longrightarrow>
       (\<forall>(train, valid) \<in> set splits.
          set y \<subseteq> (\<lambda>j. y ! j) ` set train \<and> set y \<subseteq> (\<lambda>j. y ! j) ` set valid)"
    and tp: "\<forall>Xt yt e. train_pipeline env p Xt yt cfg False True = Inl e \<longrightarrow>
                 is_Exception e \<and> covers_objectives cfg e"
    and sc: "\<forall>fp Xs ys Xt yt e.
               pipeline_score env fp Xs ys (objective cfg # additional_objectives cfg) Xt yt = Inl e
                 \<longrightarrow> is_Exception e \<and> covers_objectives cfg e"
    and cb: "\<forall>cb e n. error_callback cfg = Some cb \<longrightarrow>
               call_error_callback env cb e (format_tb env e) cfg n p = None"
  shows "\<exists>cv sp' st'. cross_validation env p cfg X y i splits acc sp st = (Inr (cv, sp'), st')"
  using bounds present
proof (induction splits arbitrary: i acc sp st)
  case Nil
  show ?case by simp
next
  case (Cons f splits)
  obtain train valid where f: "f = (train, valid)" by (cases f)
  from Cons.prems have b: "\<forall>j \<in> set train \<union> set valid. j < length X \<and> j < length y"
    and pr: "handle_problem_types env (problem_type cfg) \<in> {BINARY, MULTICLASS} \<longrightarrow>
       set y \<subseteq> (\<lambda>j. y ! j) ` set train \<and> set y \<subseteq> (\<lambda>j. y ! j) ` set valid"
    by (auto simp: f)
  from cv_fold_total [OF b pr tp sc cb, of i st] obtain entry sp1 st1 where
    fold: "cv_fold env p cfg X y i train valid st = (Inr (entry, sp1), st1)" by blast
  from Cons.prems have b': "\<forall>(train, valid) \<in> set splits.
       \<forall>j \<in> set train \<union> set valid. j < length X \<and> j < length y"
    and pr': "handle_problem_types env (problem_type cfg) \<in> {BINARY, MULTICLASS} \<longrightarrow>
       (\<forall>(train, valid) \<in> set splits.
          set y \<subseteq> (\<lambda>j. y ! j) ` set train \<and> set y \<subseteq> (\<lambda>j. y ! j) ` set valid)"
    by auto
  from Cons.IH [OF b' pr', of "Suc i" "acc @ [entry]" sp1 st1] fold
  show ?case by (simp add: f)
qed

section \<open>One entry per fold\<close>

lemma evaluation_total:
  fixes env :: "('x, 'c, 'cb) collaborators"
    and cfg :: "('x, 'cb) automl_config" and y :: series and jl :: JobLogger
  defines "y' \<equiv> (if is_classification env (problem_type cfg)
                  then encode_classification_target env y else y)"
  defines "st0 \<equiv> (\<lparr>logger = info (tab @ ''Starting cross validation'') jl,
                   pipeline_cache = [], calls = []\<rparr> :: ('x, 'c, 'cb) state)"
  assumes cv: "cross_validation env p cfg X y' 0 (data_splitter cfg X y') [] p st0
                 = (Inr (cv, sp), st1)"
    and ho: "\<forall>X_h y_h st_h. Xh = Some X_h \<and> yh = Some y_h \<longrightarrow>
        (\<exists>r st2. train_and_score env p cfg (loop_variable_after (data_splitter cfg X y'))
           X X_h y'
           (if is_classification env (problem_type cfg)
            then encode_classification_target env y_h else y_h) None st_h = (Inr r, st2))"
  shows "\<exists>res st. train_and_score_pipeline env p cfg X y jl Xh yh = (Inr res, st)"
proof (cases "\<exists>X_h y_h. Xh = Some X_h \<and> yh = Some y_h")
  case True
  then obtain X_h y_h where h: "Xh = Some X_h" "yh = Some y_h" by blast
  define yh' where "yh' = (if is_classification env (problem_type cfg)
                    then encode_classification_target env y_h else y_h)"
  define st_h where "st_h =
        log_debug (tab @ tab @ ''Training and scoring entire dataset'')
          (log_info (tab @ ''Starting holdout set scoring'')
            (log_info (tab @ ''Finished cross validation - mean ''
                         @ name (objective cfg) @ '': ''
                         @ format_3f env (series_mean (map mean_cv_score cv))) st1))"
  from ho h obtain r st2 where ts: "train_and_score env p cfg
          (loop_variable_after (data_splitter cfg X y')) X X_h y' yh' None st_h = (Inr r, st2)"
    unfolding yh'_def by blast
  obtain hs hss sp' where r: "r = (hs, hss, sp')" by (cases r)
  from h r cv ts show ?thesis
    unfolding train_and_score_pipeline_def Let_def y'_def st0_def st_h_def yh'_def
    by (simp split: if_splits)
next
  case False
  from False cv show ?thesis
    unfolding train_and_score_pipeline_def Let_def y'_def st0_def
    by (cases Xh; cases yh) (simp_all split: if_splits)
qed

text \<open>
  One entry per fold, where the loop variable \<open>i\<close> is bound when the holdout pass reads
  it. Take an evaluation whose data splitter yields \<open>k\<close> folds with positions inside
  the data, whose folds miss no target value (where that is checked), whose training and
  scoring raise nothing but exceptions that derive from \<open>Exception\<close>, a partial scoring
  failure accounting for every configured objective, and whose error callback returns
  normally. Then \<open>train_and_score_pipeline\<close> returns a result; its \<open>cv_data\<close> has
  exactly \<open>k\<close> entries; entry \<open>j\<close> carries the sizes of the \<open>j\<close>-th fold the
  splitter gave; and the first \<open>k\<close> calls of \<open>train_pipeline\<close> are those of the folds,
  one per fold, in the splitter's order: however many folds fail, every fold is trained.
  With a holdout set the splitter is taken to yield at least one fold; the evaluation
  with a holdout set and no fold is \<open>holdout_pass_unbound_loop_variable\<close> below.
\<close>

theorem evaluation_has_an_entry_per_fold:
  fixes env :: "('x, 'c, 'cb) collaborators"
    and automl_config :: "('x, 'cb) automl_config"
    and full_X_train :: "'x frame" and full_y_train :: series
  defines "y' \<equiv> (if is_classification env (problem_type automl_config)
                  then encode_classification_target env full_y_train else full_y_train)"
  defines "splits \<equiv> data_splitter automl_config full_X_train y'"
  assumes bounds: "\<forall>(train, valid) \<in> set splits.
       \<forall>j \<in> set train \<union> set valid. j < length full_X_train \<and> j < length y'"
    and present: "handle_problem_types env (problem_type automl_config) \<in> {BINARY, MULTICLASS} \<longrightarrow>
       (\<forall>(train, valid) \<in> set splits.
          set y' \<subseteq> (\<lambda>j. y' ! j) ` set train \<and> set y' \<subseteq> (\<lambda>j. y' ! j) ` set valid)"
    and training: "\<forall>Xt yt e. train_pipeline env pipeline Xt yt automl_config False True = Inl e \<longrightarrow>
                 is_Exception e \<and> covers_objectives automl_config e"
    and scoring: "\<forall>fp Xs ys Xt yt e.
               pipeline_score env fp Xs ys
                 (objective automl_config # additional_objectives automl_config) Xt yt = Inl e
                 \<longrightarrow> is_Exception e \<and> covers_objectives automl_config e"
    and callback: "\<forall>cb e n. error_callback automl_config = Some cb \<longrightarrow>
               call_error_callback env cb e (format_tb env e) automl_config n pipeline = None"
    and holdout: "splits \<noteq> [] \<or> X_holdout = None \<or> y_holdout = None"
  shows "\<exists>res st.
     train_and_score_pipeline env pipeline automl_config full_X_train full_y_train job_logger
       X_holdout y_holdout = (Inr res, st)
     \<and> length (cv_data (result_scores res)) = length splits
     \<and> (\<forall>j < length splits.
          map_of (all_objective_scores (cv_data (result_scores res) ! j)) ''# Training''
            = Some (Size (length (fst (splits ! j))))
          \<and> map_of (all_objective_scores (cv_data (result_scores res) ! j)) ''# Validation''
            = Some (Size (length (snd (splits ! j)))))
     \<and> take (length splits) (filter is_Train_pipeline_call (calls st))
         = map (fold_train_call pipeline full_X_train y') splits"
proof -
  let ?st0 = "\<lparr>logger = info (tab @ ''Starting cross validation'') job_logger,
                   pipeline_cache = [], calls = []\<rparr> :: ('x, 'c, 'cb) state"
  from cross_validation_total [OF bounds present training scoring callback, of 0 "[]" pipeline ?st0]
  obtain cv sp st1 where cv: "cross_validation env pipeline automl_config full_X_train y' 0
      splits [] pipeline ?st0 = (Inr (cv, sp), st1)" by blast
  have ho: "\<forall>X_h y_h st_h. X_holdout = Some X_h \<and> y_holdout = Some y_h \<longrightarrow>
        (\<exists>r st2. train_and_score env pipeline automl_config (loop_variable_after splits)
           full_X_train X_h y'
           (if is_classification env (problem_type automl_config)
            then encode_classification_target env y_h else y_h) None st_h = (Inr r, st2))"
  proof (intro allI impI)
    fix X_h y_h and st_h :: "('x, 'c, 'cb) state"
    assume "X_holdout = Some X_h \<and> y_holdout = Some y_h"
    with holdout have "splits \<noteq> []" by auto
    then have l: "loop_variable_after splits = Some (length splits - 1)"
      by (simp add: loop_variable_after_def)
    from training have tp: "\<forall>e. train_pipeline env pipeline full_X_train y' automl_config False True
        = Inl e \<longrightarrow> is_Exception e \<and> covers_objectives automl_config e" by blast
    from scoring have sc: "\<forall>fp e. pipeline_score env fp X_h
        (if is_classification env (problem_type automl_config)
            then encode_classification_target env y_h else y_h)
        (objective automl_config # additional_objectives automl_config) full_X_train y' = Inl e
         \<longrightarrow> is_Exception e \<and> covers_objectives automl_config e" by blast
    from callback have cb: "\<forall>cb e. error_callback automl_config = Some cb \<longrightarrow>
        call_error_callback env cb e (format_tb env e) automl_config (length splits - 1) pipeline
          = None" by blast
    from train_and_score_total [OF tp sc cb, of None st_h]
    show "\<exists>r st2. train_and_score env pipeline automl_config (loop_variable_after splits)
           full_X_train X_h y'
           (if is_classification env (problem_type automl_config)
            then encode_classification_target env y_h else y_h) None st_h = (Inr r, st2)"
      unfolding l .
  qed
  from evaluation_total [OF cv [unfolded y'_def splits_def] ho [unfolded y'_def splits_def]]
  obtain res st where r: "train_and_score_pipeline env pipeline automl_config full_X_train
      full_y_train job_logger X_holdout y_holdout = (Inr res, st)" by blast
  from cross_validation_Inr [OF cv] obtain entries where
    e: "cv = [] @ entries" and len: "length entries = length splits"
    and sizes: "\<forall>j < length splits.
          map_of (all_objective_scores (entries ! j)) ''# Training''
            = Some (Size (length (fst (splits ! j))))
          \<and> map_of (all_objective_scores (entries ! j)) ''# Validation''
            = Some (Size (length (snd (splits ! j))))"
    and tc: "filter is_Train_pipeline_call (calls st1) =
         filter is_Train_pipeline_call (calls ?st0) @ map (fold_train_call pipeline full_X_train y') splits"
    by blast
  from tc have tc1: "filter is_Train_pipeline_call (calls st1)
      = map (fold_train_call pipeline full_X_train y') splits" by simp
  from evaluation_returns [OF r] cv obtain
    d: "cv_data (result_scores res) = cv"
    and rest: "(case (X_holdout, y_holdout) of
          (Some X_h, Some y_h) \<Rightarrow>
            (\<exists>st_h hs hss st2.
               train_and_score env pipeline automl_config (loop_variable_after splits)
                   full_X_train X_h y'
                   (if is_classification env (problem_type automl_config)
                    then encode_classification_target env y_h else y_h) None st_h
                   = (Inr (hs, hss, result_pipeline res), st2)
               \<and> calls st_h = calls st1
               \<and> holdout_score (result_scores res) = Some hs
               \<and> holdout_scores (result_scores res) = Some hss
               \<and> calls st = calls st2)
        | _ \<Rightarrow>
            holdout_score (result_scores res) = None
            \<and> holdout_scores (result_scores res) = None
            \<and> calls st = calls st1 \<and> result_pipeline res = sp)"
    unfolding y'_def splits_def by auto
  have "\<exists>more. filter is_Train_pipeline_call (calls st) =
      filter is_Train_pipeline_call (calls st1) @ more"
  proof (cases "\<exists>X_h y_h. X_holdout = Some X_h \<and> y_holdout = Some y_h")
    case True
    then obtain X_h y_h where h: "X_holdout = Some X_h" "y_holdout = Some y_h" by blast
    with rest obtain st_h hs hss st2 where
      t: "train_and_score env pipeline automl_config (loop_variable_after splits)
                   full_X_train X_h y'
                   (if is_classification env (problem_type automl_config)
                    then encode_classification_target env y_h else y_h) None st_h
                   = (Inr (hs, hss, result_pipeline res), st2)"
      and c1: "calls st_h = calls st1" and c2: "calls st = calls st2" by auto
    from h holdout have "splits \<noteq> []" by auto
    then have l: "loop_variable_after splits = Some (length splits - 1)"
      by (simp add: loop_variable_after_def)
    from train_and_score_train_calls [OF t [unfolded l]] c1 c2 show ?thesis by simp
  next
    case False
    with rest have "calls st = calls st1" by (cases X_holdout; cases y_holdout) simp_all
    then show ?thesis by simp
  qed
  then obtain more where "filter is_Train_pipeline_call (calls st) =
      map (fold_train_call pipeline full_X_train y') splits @ more" using tc1 by auto
  then have trains: "take (length splits) (filter is_Train_pipeline_call (calls st))
         = map (fold_train_call pipeline full_X_train y') splits" by simp
  from e d have "cv_data (result_scores res) = entries" by simp
  with r len sizes trains show ?thesis by auto
qed

theorem evaluation_has_an_entry_per_fold_witness:
  "\<exists>res st.
     train_and_score_pipeline example_env example_pipeline example_config example_X example_y
       JobLogger_init None None = (Inr res, st)
     \<and> length (cv_data (result_scores res)) = 2
     \<and> map_of (all_objective_scores (cv_data (result_scores res) ! 0)) ''# Training''
         = Some (Size 2)
     \<and> map_of (all_objective_scores (cv_data (result_scores res) ! 1)) ''# Validation''
         = Some (Size 1)
     \<and> take 2 (filter is_Train_pipeline_call (calls st))
         = [Train_pipeline_call example_pipeline [(0, 1), (1, 0)] [30, 40],
            Train_pipeline_call example_pipeline [(1, 0), (2, 0)] [40, 50]]"
proof -
  let ?y = "if is_classification example_env (problem_type example_config)
            then encode_classification_target example_env example_y else example_y"
  let ?splits = "data_splitter example_config example_X ?y"
  have y: "?y = [30, 40, 50]"
    by (simp add: example_env_def example_config_def example_y_def)
  have splits: "data_splitter example_config X ys = [([0, 1], [2]), ([1, 2], [0])]" for X ys
    by (simp add: example_config_def)
  have bounds: "\<forall>(train, valid) \<in> set ?splits.
       \<forall>j \<in> set train \<union> set valid. j < length example_X \<and> j < length ?y"
    unfolding splits y by (simp add: example_X_def)
  have present: "handle_problem_types example_env (problem_type example_config)
         \<in> {BINARY, MULTICLASS} \<longrightarrow>
       (\<forall>(train, valid) \<in> set ?splits.
          set ?y \<subseteq> (\<lambda>j. ?y ! j) ` set train \<and> set ?y \<subseteq> (\<lambda>j. ?y ! j) ` set valid)"
    by (simp add: example_env_def example_config_def)
  have training: "\<forall>Xt yt e. train_pipeline example_env example_pipeline Xt yt example_config
         False True = Inl e \<longrightarrow> is_Exception e \<and> covers_objectives example_config e"
    by (auto simp: train_pipeline_def example_env_def example_config_def split: if_splits)
  have scoring: "\<forall>fp Xs ys Xt yt e.
       pipeline_score example_env fp Xs ys
         (objective example_config # additional_objectives example_config) Xt yt = Inl e
         \<longrightarrow> is_Exception e \<and> covers_objectives example_config e"
    by (auto simp: example_env_def example_config_def split: if_splits)
  have callback: "\<forall>cb e n. error_callback example_config = Some cb \<longrightarrow>
       call_error_callback example_env cb e (format_tb example_env e) example_config n
         example_pipeline = None"
    by (simp add: example_env_def)
  have holdout: "?splits \<noteq> [] \<or> (None :: nat frame option) = None \<or> (None :: series option) = None"
    by simp
  from evaluation_has_an_entry_per_fold [OF bounds present training scoring callback holdout,
      of JobLogger_init]
  obtain res st where
    r: "train_and_score_pipeline example_env example_pipeline example_config example_X example_y
       JobLogger_init None None = (Inr res, st)"
    and len: "length (cv_data (result_scores res)) = length ?splits"
    and sizes: "\<forall>j < length ?splits.
          map_of (all_objective_scores (cv_data (result_scores res) ! j)) ''# Training''
            = Some (Size (length (fst (?splits ! j))))
          \<and> map_of (all_objective_scores (cv_data (result_scores res) ! j)) ''# Validation''
            = Some (Size (length (snd (?splits ! j))))"
    and trains: "take (length ?splits) (filter is_Train_pipeline_call (calls st))
         = map (fold_train_call example_pipeline example_X ?y) ?splits"
    by blast
  from len have l2: "length (cv_data (result_scores res)) = 2" unfolding splits by simp
  have s0: "map_of (all_objective_scores (cv_data (result_scores res) ! 0)) ''# Training''
         = Some (Size 2)"
    using sizes [rule_format, of 0] unfolding splits by simp
  have s1: "map_of (all_objective_scores (cv_data (result_scores res) ! 1)) ''# Validation''
         = Some (Size 1)"
    using sizes [rule_format, of 1] unfolding splits by simp
  from trains have t: "take 2 (filter is_Train_pipeline_call (calls st))
         = [Train_pipeline_call example_pipeline [(0, 1), (1, 0)] [30, 40],
            Train_pipeline_call example_pipeline [(1, 0), (2, 0)] [40, 50]]"
    unfolding splits y by (simp add: fold_train_call_def example_X_def numeral_2_eq_2)
  from r l2 s0 s1 t show ?thesis by blast
qed

section \<open>The holdout pass\<close>

text \<open>
  The holdout pass of an evaluation that returns a result. When both \<open>X_holdout\<close> and
  \<open>y_holdout\<close> are given, one more pass of \<open>_train_and_score\<close> runs after the loop,
  whose score and scores are the result's \<open>holdout_score\<close> and \<open>holdout_scores\<close>;
  up to that pass \<open>train_pipeline\<close> was called once per fold, and the pass adds exactly one
  call of it, on the whole training data, and scores (if it comes to scoring) on the
  holdout data with the whole training data as training slice. When either is missing,
  both fields are \<open>None\<close> and \<open>train_pipeline\<close> was called once per fold and no more.
  The target of a classification problem is the re-encoded one throughout, the holdout
  target re-encoded by its own value counts: what the pass scores on is then not the
  holdout target as it was given.
\<close>

theorem holdout_pass_runs_once:
  fixes env :: "('x, 'c, 'cb) collaborators"
    and automl_config :: "('x, 'cb) automl_config"
    and full_X_train :: "'x frame" and full_y_train :: series
  defines "y' \<equiv> (if is_classification env (problem_type automl_config)
                  then encode_classification_target env full_y_train else full_y_train)"
  defines "splits \<equiv> data_splitter automl_config full_X_train y'"
  assumes r: "train_and_score_pipeline env pipeline automl_config full_X_train full_y_train
                job_logger X_holdout y_holdout = (Inr res, st)"
  shows "(case (X_holdout, y_holdout) of
      (Some X_h, Some y_h) \<Rightarrow>
        (\<exists>hs hss st_h st2 rest.
           train_and_score env pipeline automl_config (loop_variable_after splits)
             full_X_train X_h y'
             (if is_classification env (problem_type automl_config)
              then encode_classification_target env y_h else y_h) None st_h
             = (Inr (hs, hss, result_pipeline res), st2)
           \<and> holdout_score (result_scores res) = Some hs
           \<and> holdout_scores (result_scores res) = Some hss
           \<and> filter is_Train_pipeline_call (calls st_h)
               = map (fold_train_call pipeline full_X_train y') splits
           \<and> calls st = calls st_h @ Train_pipeline_call pipeline full_X_train y' # rest
           \<and> (\<forall>c \<in> set rest. \<not> is_Train_pipeline_call c)
           \<and> (\<forall>fp Xs ys obs Xt yt. Score_call fp Xs ys obs Xt yt \<in> set rest \<longrightarrow>
                 Xs = X_h
                 \<and> ys = (if is_classification env (problem_type automl_config)
                         then encode_classification_target env y_h else y_h)
                 \<and> Xt = full_X_train \<and> yt = y'))
    | _ \<Rightarrow>
        holdout_score (result_scores res) = None
        \<and> holdout_scores (result_scores res) = None
        \<and> filter is_Train_pipeline_call (calls st)
            = map (fold_train_call pipeline full_X_train y') splits)"
proof -
  let ?st0 = "\<lparr>logger = info (tab @ ''Starting cross validation'') job_logger,
                   pipeline_cache = [], calls = []\<rparr> :: ('x, 'c, 'cb) state"
  from evaluation_returns [OF r] obtain cv sp st1 where
    cv: "cross_validation env pipeline automl_config full_X_train y' 0 splits [] pipeline ?st0
           = (Inr (cv, sp), st1)"
    and rest: "(case (X_holdout, y_holdout) of
          (Some X_h, Some y_h) \<Rightarrow>
            (\<exists>st_h hs hss st2.
               train_and_score env pipeline automl_config (loop_variable_after splits)
                   full_X_train X_h y'
                   (if is_classification env (problem_type automl_config)
                    then encode_classification_target env y_h else y_h) None st_h
                   = (Inr (hs, hss, result_pipeline res), st2)
               \<and> calls st_h = calls st1
               \<and> holdout_score (result_scores res) = Some hs
               \<and> holdout_scores (result_scores res) = Some hss
               \<and> calls st = calls st2)
        | _ \<Rightarrow>
            holdout_score (result_scores res) = None
            \<and> holdout_scores (result_scores res) = None
            \<and> calls st = calls st1 \<and> result_pipeline res = sp)"
    unfolding y'_def splits_def by blast
  from cross_validation_Inr [OF cv]
  have tc: "filter is_Train_pipeline_call (calls st1)
      = map (fold_train_call pipeline full_X_train y') splits" by auto
  show ?thesis
  proof (cases "\<exists>X_h y_h. X_holdout = Some X_h \<and> y_holdout = Some y_h")
    case True
    then obtain X_h y_h where h: "X_holdout = Some X_h" "y_holdout = Some y_h" by blast
    let ?yh = "if is_classification env (problem_type automl_config)
               then encode_classification_target env y_h else y_h"
    from rest h obtain st_h hs hss st2 where
      t: "train_and_score env pipeline automl_config (loop_variable_after splits)
            full_X_train X_h y' ?yh None st_h = (Inr (hs, hss, result_pipeline res), st2)"
      and c1: "calls st_h = calls st1"
      and hs: "holdout_score (result_scores res) = Some hs"
      and hss: "holdout_scores (result_scores res) = Some hss"
      and c2: "calls st = calls st2" by auto
    obtain n where l: "loop_variable_after splits = Some n"
      using t by (cases "loop_variable_after splits") (simp_all add: train_and_score_unbound)
    from train_and_score_calls [OF t [unfolded l]] obtain more where
      m1: "calls st2 = calls st_h @ Train_pipeline_call pipeline full_X_train y' # more"
      and m2: "\<forall>c \<in> set more. \<not> is_Train_pipeline_call c"
      and m3: "\<forall>fp X y obs X' y'a. Score_call fp X y obs X' y'a \<in> set more \<longrightarrow>
           X = X_h \<and> y = ?yh
           \<and> obs = objective automl_config # additional_objectives automl_config
           \<and> X' = full_X_train \<and> y'a = y'" by blast
    from m3 have m3': "\<forall>fp Xs ys obs Xt yt. Score_call fp Xs ys obs Xt yt \<in> set more \<longrightarrow>
                 Xs = X_h \<and> ys = ?yh \<and> Xt = full_X_train \<and> yt = y'" by blast
    have f: "filter is_Train_pipeline_call (calls st_h)
               = map (fold_train_call pipeline full_X_train y') splits"
      by (simp add: c1 tc)
    have c: "calls st = calls st_h @ Train_pipeline_call pipeline full_X_train y' # more"
      by (simp add: c2 m1)
    from t hs hss f c m2 m3'
    have "\<exists>hs hss st_h st2 rest.
           train_and_score env pipeline automl_config (loop_variable_after splits)
             full_X_train X_h y' ?yh None st_h
             = (Inr (hs, hss, result_pipeline res), st2)
           \<and> holdout_score (result_scores res) = Some hs
           \<and> holdout_scores (result_scores res) = Some hss
           \<and> filter is_Train_pipeline_call (calls st_h)
               = map (fold_train_call pipeline full_X_train y') splits
           \<and> calls st = calls st_h @ Train_pipeline_call pipeline full_X_train y' # rest
           \<and> (\<forall>c \<in> set rest. \<not> is_Train_pipeline_call c)
           \<and> (\<forall>fp Xs ys obs Xt yt. Score_call fp Xs ys obs Xt yt \<in> set rest \<longrightarrow>
                 Xs = X_h \<and> ys = ?yh \<and> Xt = full_X_train \<and> yt = y')"
      by blast
    then show ?thesis unfolding h by simp
  next
    case False
    with rest tc show ?thesis by (cases X_holdout; cases y_holdout) simp_all
  qed
qed

theorem holdout_pass_runs_once_witness:
  "\<exists>res st.
     train_and_score_pipeline example_env example_pipeline partial_config partial_X example_y
       JobLogger_init (Some holdout_X) (Some holdout_y) = (Inr res, st)
     \<and> holdout_score (result_scores res) \<noteq> None
     \<and> holdout_scores (result_scores res) \<noteq> None
     \<and> filter is_Train_pipeline_call (calls st)
         = [Train_pipeline_call example_pipeline [(0, 0), (1, 0)] [30, 40],
            Train_pipeline_call example_pipeline partial_X example_y]"
proof -
  have "\<exists>res st. train_and_score_pipeline example_env example_pipeline partial_config
      partial_X example_y JobLogger_init (Some holdout_X) (Some holdout_y) = (Inr res, st)"
    by (simp add: train_and_score_pipeline_def example_env_def example_config_def
        partial_config_def example_pipeline_def partial_X_def example_y_def holdout_X_def
        holdout_y_def cv_fold_def train_and_score_def try_train_and_score_def train_pipeline_def
        iloc_def missing_target_values_def loop_variable_after_def dict_update_def dict_of_def
        log_debug_def log_info_def record_call_def Let_def)
  then obtain res st where r: "train_and_score_pipeline example_env example_pipeline
      partial_config partial_X example_y JobLogger_init (Some holdout_X) (Some holdout_y)
      = (Inr res, st)" by blast
  have y: "(if is_classification example_env (problem_type partial_config)
            then encode_classification_target example_env example_y else example_y) = example_y"
    by (simp add: example_env_def example_config_def partial_config_def)
  have splits: "data_splitter partial_config X ys = [([0, 1], [2])]" for X ys
    by (simp add: partial_config_def)
  from holdout_pass_runs_once [OF r]
  have "\<exists>hs hss (st_h :: (nat, nat, unit) state) rest.
      holdout_score (result_scores res) = Some hs
      \<and> holdout_scores (result_scores res) = Some hss
      \<and> filter is_Train_pipeline_call (calls st_h)
          = map (fold_train_call example_pipeline partial_X example_y) [([0, 1], [2])]
      \<and> calls st = calls st_h @ Train_pipeline_call example_pipeline partial_X example_y # rest
      \<and> (\<forall>c \<in> set rest. \<not> is_Train_pipeline_call c)"
    unfolding y splits by simp blast
  then obtain hs hss and st_h :: "(nat, nat, unit) state" and rest where
    hs: "holdout_score (result_scores res) = Some hs"
    and hss: "holdout_scores (result_scores res) = Some hss"
    and f: "filter is_Train_pipeline_call (calls st_h)
        = map (fold_train_call example_pipeline partial_X example_y) [([0, 1], [2])]"
    and c: "calls st = calls st_h @ Train_pipeline_call example_pipeline partial_X example_y # rest"
    and n: "\<forall>c \<in> set rest. \<not> is_Train_pipeline_call c"
    by blast
  from n have "filter is_Train_pipeline_call rest = []" by (simp add: filter_empty_conv)
  with c f have "filter is_Train_pipeline_call (calls st)
         = [Train_pipeline_call example_pipeline [(0, 0), (1, 0)] [30, 40],
            Train_pipeline_call example_pipeline partial_X example_y]"
    by (simp add: fold_train_call_def partial_X_def example_y_def)
  with r hs hss show ?thesis by auto
qed

section \<open>The mean of the folds' scores\<close>

lemma dropna_empty: "dropna xs = [] \<longleftrightarrow> (\<forall>s \<in> set xs. s = NaN)"
proof (induction xs)
  case Nil
  show ?case by (simp add: dropna_def)
next
  case (Cons x xs)
  then show ?case by (cases x) (simp_all add: dropna_def)
qed

lemma dropna_all: "NaN \<notin> set xs \<Longrightarrow> map Float (dropna xs) = xs"
proof (induction xs)
  case Nil
  show ?case by (simp add: dropna_def)
next
  case (Cons x xs)
  then show ?case by (cases x) (simp_all add: dropna_def)
qed

lemma series_mean_NaN: "series_mean xs = NaN \<longleftrightarrow> (\<forall>s \<in> set xs. s = NaN)"
  by (simp add: series_mean_def Let_def dropna_empty)

text \<open>
  C2, as the code has it. The result's \<open>cv_scores\<close> are the folds' scores on the primary
  objective, and \<open>cv_score_mean\<close> is the arithmetic mean of those among them that are not
  NaN: NaN exactly when every fold's score is NaN (or there is no fold), and the mean of
  all the folds' scores when none of them is NaN.
\<close>

theorem cv_score_mean_skips_nan:
  assumes r: "train_and_score_pipeline env pipeline automl_config full_X_train full_y_train
                job_logger X_holdout y_holdout = (Inr res, st)"
  shows "cv_scores (result_scores res) = map mean_cv_score (cv_data (result_scores res))
     \<and> cv_score_mean (result_scores res) =
         (if dropna (cv_scores (result_scores res)) = [] then NaN
          else Float (sum_list (dropna (cv_scores (result_scores res)))
                        / real (length (dropna (cv_scores (result_scores res))))))
     \<and> (cv_score_mean (result_scores res) = NaN
          \<longleftrightarrow> (\<forall>s \<in> set (cv_scores (result_scores res)). s = NaN))
     \<and> (NaN \<notin> set (cv_scores (result_scores res)) \<and> cv_scores (result_scores res) \<noteq> []
          \<longrightarrow> map Float (dropna (cv_scores (result_scores res))) = cv_scores (result_scores res)
              \<and> cv_score_mean (result_scores res) =
                  Float (sum_list (dropna (cv_scores (result_scores res)))
                           / real (length (cv_scores (result_scores res)))))"
proof -
  from evaluation_returns [OF r] obtain cv where
    d: "cv_data (result_scores res) = cv"
    and s: "cv_scores (result_scores res) = map mean_cv_score cv"
    and m: "cv_score_mean (result_scores res) = series_mean (map mean_cv_score cv)"
    by blast
  let ?cvs = "cv_scores (result_scores res)"
  have a: "?cvs = map mean_cv_score (cv_data (result_scores res))" by (simp add: d s)
  have m': "cv_score_mean (result_scores res) = series_mean ?cvs" by (simp add: m s)
  have b: "cv_score_mean (result_scores res) =
         (if dropna ?cvs = [] then NaN
          else Float (sum_list (dropna ?cvs) / real (length (dropna ?cvs))))"
    unfolding m' by (simp add: series_mean_def Let_def)
  have c: "cv_score_mean (result_scores res) = NaN \<longleftrightarrow> (\<forall>s \<in> set ?cvs. s = NaN)"
    unfolding m' by (rule series_mean_NaN)
  have e: "map Float (dropna ?cvs) = ?cvs
      \<and> cv_score_mean (result_scores res) = Float (sum_list (dropna ?cvs) / real (length ?cvs))"
    if n: "NaN \<notin> set ?cvs" and ne: "?cvs \<noteq> []"
  proof -
    from dropna_all [OF n] have all: "map Float (dropna ?cvs) = ?cvs" .
    then have "length (map Float (dropna ?cvs)) = length ?cvs" by simp
    then have len: "length (dropna ?cvs) = length ?cvs" by simp
    from ne len have "dropna ?cvs \<noteq> []" by auto
    with b len all show ?thesis by simp
  qed
  from a b c e show ?thesis by blast
qed

lemmas evaluation_defs =
  train_and_score_pipeline_def cv_fold_def train_and_score_def try_train_and_score_def
  train_pipeline_def iloc_def missing_target_values_def make_evaluation_entry_def
  series_mean_def dropna_def loop_variable_after_def dict_update_def dict_of_def
  log_debug_def log_info_def record_call_def Let_def

theorem cv_score_mean_counterexample:
  "\<not> isl example_outcome
   \<and> map mean_cv_score (cv_data (result_scores (projr example_outcome))) = [NaN, Float 1]
   \<and> cv_score_mean (result_scores (projr example_outcome)) = Float 1"
  by (simp add: example_outcome_def evaluation_defs example_env_def example_config_def
      example_pipeline_def example_X_def example_y_def)

theorem cv_score_mean_skips_nan_witness:
  "\<exists>res st.
     train_and_score_pipeline example_env example_pipeline partial_config partial_X example_y
       JobLogger_init None None = (Inr res, st)
     \<and> cv_scores (result_scores res) = map mean_cv_score (cv_data (result_scores res))
     \<and> cv_score_mean (result_scores res) =
         (if dropna (cv_scores (result_scores res)) = [] then NaN
          else Float (sum_list (dropna (cv_scores (result_scores res)))
                        / real (length (dropna (cv_scores (result_scores res))))))
     \<and> cv_scores (result_scores res) = [Float (4 / 5)]"
proof -
  have "\<exists>res st. train_and_score_pipeline example_env example_pipeline partial_config
      partial_X example_y JobLogger_init None None = (Inr res, st)
      \<and> cv_scores (result_scores res) = [Float (4 / 5)]"
    by (simp add: evaluation_defs example_env_def example_config_def partial_config_def
        example_pipeline_def partial_X_def example_y_def)
  then obtain res st where r: "train_and_score_pipeline example_env example_pipeline
      partial_config partial_X example_y JobLogger_init None None = (Inr res, st)"
    and v: "cv_scores (result_scores res) = [Float (4 / 5)]" by blast
  from cv_score_mean_skips_nan [OF r] r v show ?thesis by blast
qed

section \<open>Target values missing from a fold\<close>

lemma evaluation_aborts:
  fixes env :: "('x, 'c, 'cb) collaborators"
    and cfg :: "('x, 'cb) automl_config" and y :: series and jl :: JobLogger
  defines "y' \<equiv> (if is_classification env (problem_type cfg)
                  then encode_classification_target env y else y)"
  defines "st0 \<equiv> (\<lparr>logger = info (tab @ ''Starting cross validation'') jl,
                   pipeline_cache = [], calls = []\<rparr> :: ('x, 'c, 'cb) state)"
  assumes "cross_validation env p cfg X y' 0 (data_splitter cfg X y') [] p st0 = (Inl e, s)"
  shows "train_and_score_pipeline env p cfg X y jl Xh yh = (Inl e, s)"
  using assms unfolding train_and_score_pipeline_def Let_def y'_def st0_def
  by (simp split: if_splits)

lemma missing_some:
  assumes kind: "handle_problem_types env (problem_type cfg) \<in> {BINARY, MULTICLASS}"
    and missing: "setdiff1d y y_train \<noteq> [] \<or> setdiff1d y y_valid \<noteq> []"
  shows "missing_target_values env cfg y y_train y_valid =
     Some (Exception
       ((if setdiff1d y y_train \<noteq> []
         then ''Missing target values in the training set after data split: ''
                @ repr_set env (setdiff1d y y_train) @ ''. ''
         else [])
        @ (if setdiff1d y y_valid \<noteq> []
           then ''Missing target values in the validation set after data split: ''
                  @ repr_set env (setdiff1d y y_valid) @ ''.''
           else [])))"
  using kind missing by (auto simp: missing_target_values_def Let_def)

lemma cv_fold_missing:
  assumes kind: "handle_problem_types env (problem_type cfg) \<in> {BINARY, MULTICLASS}"
    and bounds: "\<forall>j \<in> set train \<union> set valid. j < length X \<and> j < length y"
    and missing: "setdiff1d y (map (\<lambda>j. y ! j) train) \<noteq> []
                  \<or> setdiff1d y (map (\<lambda>j. y ! j) valid) \<noteq> []"
  shows "\<exists>st'. cv_fold env p cfg X y i train valid st =
     (Inl (Exception
       ((if setdiff1d y (map (\<lambda>j. y ! j) train) \<noteq> []
         then ''Missing target values in the training set after data split: ''
                @ repr_set env (setdiff1d y (map (\<lambda>j. y ! j) train)) @ ''. ''
         else [])
        @ (if setdiff1d y (map (\<lambda>j. y ! j) valid) \<noteq> []
           then ''Missing target values in the validation set after data split: ''
                  @ repr_set env (setdiff1d y (map (\<lambda>j. y ! j) valid)) @ ''.''
           else []))), st')
     \<and> calls st' = calls st"
proof -
  from bounds have s: "iloc X train = Inr (map (\<lambda>j. X ! j) train)"
    "iloc X valid = Inr (map (\<lambda>j. X ! j) valid)"
    "iloc y train = Inr (map (\<lambda>j. y ! j) train)"
    "iloc y valid = Inr (map (\<lambda>j. y ! j) valid)"
    by (simp_all add: iloc_def)
  from s missing_some [OF kind missing] show ?thesis
    by (simp add: cv_fold_def Let_def log_debug_def)
qed

text \<open>
  The abort on a fold that lacks a value of the target that the loop slices. In a binary
  or multiclass evaluation, take the first fold whose training slice or validation slice
  lacks a value of that target (the folds before it completed). Then the
  evaluation returns no result: it raises an \<open>Exception\<close> whose message names, for the
  training slice and then for the validation slice, the values that slice lacks (the
  sorted distinct values of the target that are not in the slice) and which slice it is.
  It is raised before the fold's training: the history of calls is the one the earlier
  folds left, with no call of \<open>train_pipeline\<close> and no call of the error callback for
  this fold. The target is the one the loop slices: for a classification the re-encoded
  one, so the values named are codes and not the values of the target as it was given.
\<close>

theorem missing_target_values_abort:
  fixes env :: "('x, 'c, 'cb) collaborators"
    and automl_config :: "('x, 'cb) automl_config"
    and full_X_train :: "'x frame" and full_y_train :: series and job_logger :: JobLogger
  defines "y' \<equiv> (if is_classification env (problem_type automl_config)
                  then encode_classification_target env full_y_train else full_y_train)"
  defines "st0 \<equiv> (\<lparr>logger = info (tab @ ''Starting cross validation'') job_logger,
                   pipeline_cache = [], calls = []\<rparr> :: ('x, 'c, 'cb) state)"
  assumes split: "data_splitter automl_config full_X_train y' = before @ (train, valid) # rest"
    and completed: "cross_validation env pipeline automl_config full_X_train y' 0 before []
                      pipeline st0 = (Inr (cv, sp), st1)"
    and kind: "handle_problem_types env (problem_type automl_config) \<in> {BINARY, MULTICLASS}"
    and bounds: "\<forall>j \<in> set train \<union> set valid. j < length full_X_train \<and> j < length y'"
    and missing: "\<not> set y' \<subseteq> (\<lambda>j. y' ! j) ` set train \<or> \<not> set y' \<subseteq> (\<lambda>j. y' ! j) ` set valid"
  shows "let diff_train = setdiff1d y' (map (\<lambda>j. y' ! j) train);
             diff_valid = setdiff1d y' (map (\<lambda>j. y' ! j) valid)
         in (\<exists>st'.
               train_and_score_pipeline env pipeline automl_config full_X_train full_y_train
                 job_logger X_holdout y_holdout =
                 (Inl (Exception
                    ((if diff_train \<noteq> []
                      then ''Missing target values in the training set after data split: ''
                             @ repr_set env diff_train @ ''. ''
                      else [])
                     @ (if diff_valid \<noteq> []
                        then ''Missing target values in the validation set after data split: ''
                               @ repr_set env diff_valid @ ''.''
                        else []))), st')
               \<and> calls st' = calls st1)
            \<and> set diff_train = set y' - (\<lambda>j. y' ! j) ` set train
            \<and> set diff_valid = set y' - (\<lambda>j. y' ! j) ` set valid
            \<and> (diff_train \<noteq> [] \<or> diff_valid \<noteq> [])"
proof -
  let ?dt = "setdiff1d y' (map (\<lambda>j. y' ! j) train)"
  let ?dv = "setdiff1d y' (map (\<lambda>j. y' ! j) valid)"
  let ?msg = "(if ?dt \<noteq> []
              then ''Missing target values in the training set after data split: ''
                     @ repr_set env ?dt @ ''. ''
              else [])
             @ (if ?dv \<noteq> []
                then ''Missing target values in the validation set after data split: ''
                       @ repr_set env ?dv @ ''.''
                else [])"
  have sets: "set ?dt = set y' - (\<lambda>j. y' ! j) ` set train"
    "set ?dv = set y' - (\<lambda>j. y' ! j) ` set valid"
    by (simp_all add: set_setdiff1d)
  from missing have m: "?dt \<noteq> [] \<or> ?dv \<noteq> []"
    by (simp add: setdiff1d_empty)
  from cv_fold_missing [OF kind bounds m, of pipeline "0 + length before" st1]
  obtain st' where
    f: "cv_fold env pipeline automl_config full_X_train y' (0 + length before) train valid st1
          = (Inl (Exception ?msg), st')"
    and c: "calls st' = calls st1" by blast
  have "cross_validation env pipeline automl_config full_X_train y' 0
          (before @ (train, valid) # rest) [] pipeline st0 = (Inl (Exception ?msg), st')"
    unfolding cross_validation_append completed using f by simp
  then have "cross_validation env pipeline automl_config full_X_train y' 0
          (data_splitter automl_config full_X_train y') [] pipeline st0
          = (Inl (Exception ?msg), st')"
    unfolding split .
  from evaluation_aborts [OF this [unfolded y'_def st0_def]]
  have "train_and_score_pipeline env pipeline automl_config full_X_train full_y_train
          job_logger X_holdout y_holdout = (Inl (Exception ?msg), st')"
    unfolding y'_def .
  with c sets m show ?thesis unfolding Let_def by blast
qed

theorem missing_target_values_abort_witness:
  "\<exists>st'.
     train_and_score_pipeline example_env example_pipeline multiclass_config multiclass_X
       multiclass_y JobLogger_init None None =
       (Inl (Exception ''Missing target values in the training set after data split: {2}. ''),
        st')
     \<and> calls st' = []"
proof -
  let ?y = "if is_classification example_env (problem_type multiclass_config)
            then encode_classification_target example_env multiclass_y else multiclass_y"
  let ?st0 = "\<lparr>logger = info (tab @ ''Starting cross validation'') JobLogger_init,
               pipeline_cache = [], calls = []\<rparr> :: (nat, nat, unit) state"
  have y: "?y = [0, 0, 0, 1, 1, 2]"
    by (simp add: example_env_def example_config_def multiclass_config_def multiclass_y_def
        encode_classification_target_def example_value_counts_index_def first_occurrences_def
        sort_key_def dict_of_def dict_update_def Let_def)
  have split: "data_splitter multiclass_config multiclass_X ?y
      = [] @ ([0, 1, 3, 4], [2, 4, 5]) # []"
    by (simp add: multiclass_config_def)
  have completed: "cross_validation example_env example_pipeline multiclass_config
      multiclass_X ?y 0 [] [] example_pipeline ?st0 = (Inr ([], example_pipeline), ?st0)"
    by simp
  have kind: "handle_problem_types example_env (problem_type multiclass_config)
      \<in> {BINARY, MULTICLASS}"
    by (simp add: example_env_def multiclass_config_def)
  have bounds: "\<forall>j \<in> set [0, 1, 3, 4] \<union> set [2, 4, 5].
      j < length multiclass_X \<and> j < length ?y"
    unfolding y by (simp add: multiclass_X_def)
  have missing: "\<not> set ?y \<subseteq> (\<lambda>j. ?y ! j) ` set [0, 1, 3, 4]
      \<or> \<not> set ?y \<subseteq> (\<lambda>j. ?y ! j) ` set [2, 4, 5]"
    unfolding y by simp
  have dt: "setdiff1d ?y (map (\<lambda>j. ?y ! j) [0, 1, 3, 4]) = [2]"
    and dv: "setdiff1d ?y (map (\<lambda>j. ?y ! j) [2, 4, 5]) = []"
    unfolding y by (simp_all add: setdiff1d_def)
  have repr: "repr_set example_env [2] = ''{2}''"
    by (simp add: example_env_def str.simps digit_def)
  from missing_target_values_abort [OF split completed kind bounds missing,
      of None None]
  show ?thesis
    unfolding Let_def dt dv repr by simp
qed

section \<open>The entry of a fold\<close>

lemma train_and_score_Inr:
  assumes "train_and_score env p cfg (Some n) Xt Xs yt ys fn st = (Inr (sc, scores, sp), st')"
  shows "fst (try_train_and_score env p cfg (''Fold '' @ str n) Xt Xs yt ys st)
           = Inr (sc, scores, sp)
       \<or> (\<exists>e. fst (try_train_and_score env p cfg (''Fold '' @ str n) Xt Xs yt ys st)
                 = Inl (e, sp)
              \<and> scores_after_failure cfg e = Inr (sc, scores))"
proof -
  obtain b st1 where b: "try_train_and_score env p cfg (''Fold '' @ str n) Xt Xs yt ys st
      = (b, st1)"
    by (cases "try_train_and_score env p cfg (''Fold '' @ str n) Xt Xs yt ys st")
  from b assms show ?thesis
    unfolding train_and_score_def
    by (auto split: sum.splits option.splits prod.splits if_splits)
qed

lemma scores_after_failure_keys:
  assumes s: "scores_after_failure cfg e = Inr (sc, scores)"
    and d: "distinct (map name (objective cfg # additional_objectives cfg))"
  shows "map fst scores =
     (if is_PipelineScoreError e then map name (objective cfg # additional_objectives cfg)
      else map name (additional_objectives cfg))"
proof (cases "is_PipelineScoreError e")
  case False
  let ?ks = "map name (additional_objectives cfg)"
  let ?pairs = "zip ?ks (replicate (length (additional_objectives cfg)) NaN)"
  have k: "map fst ?pairs = ?ks" by (simp add: map_fst_zip)
  from d have dk: "distinct (map fst ?pairs)" unfolding k by simp
  have "map fst (dict_of ?pairs) = ?ks"
    using keys_dict_update_new [OF dk, of "[]"] by (simp add: dict_of_def k)
  with s False show ?thesis by (simp add: scores_after_other)
next
  case True
  then obtain ex ok where e: "e = PipelineScoreError ex ok" by (cases e) simp_all
  let ?merged = "dict_update (dict_of (map (\<lambda>(ob, _). (ob, NaN)) ex)) ok"
  from s obtain r where r: "scores_by_name ?merged
      (objective cfg # additional_objectives cfg) [] = Inr r" and sr: "scores = r"
    unfolding e by (auto simp: Let_def split: sum.splits option.splits)
  from scores_by_name_keys [OF r d] have "map fst r = map name (objective cfg # additional_objectives cfg)"
    by simp
  with sr True show ?thesis by simp
qed

lemma entry_keys:
  assumes k: "map fst scores = map name (objective cfg # additional_objectives cfg)
              \<or> map fst scores = map name (additional_objectives cfg)"
    and d: "distinct (map name (objective cfg # additional_objectives cfg))"
    and c: "\<forall>ob \<in> set (objective cfg # additional_objectives cfg).
              name ob \<noteq> ''# Training'' \<and> name ob \<noteq> ''# Validation''"
  shows "map fst (all_objective_scores (make_evaluation_entry env cfg sc scores sp nt nv)) =
     map name (objective cfg # additional_objectives cfg) @ [''# Training'', ''# Validation'']"
proof -
  let ?names = "map name (objective cfg # additional_objectives cfg)"
  let ?sc = "map (\<lambda>(k, v). (k, Score v)) scores"
  let ?d1 = "dict_update [] [(name (objective cfg), Score sc)]"
  have ks: "map fst ?sc = map fst scores" by (induction scores) auto
  have d1: "map fst ?d1 = [name (objective cfg)]" by (simp add: dict_update_def)
  have d2: "map fst (dict_update ?d1 ?sc) = ?names"
  proof -
    from k show ?thesis
    proof
      assume a: "map fst scores = ?names"
      then obtain p rest where sc: "?sc = p # rest" and p: "fst p = name (objective cfg)"
        and rest: "map fst rest = map name (additional_objectives cfg)"
        using ks by (cases ?sc) auto
      have u: "map fst (AList.update (fst p) (snd p) ?d1) = [name (objective cfg)]"
        by (simp add: update_keys d1 p)
      have step: "dict_update ?d1 (p # rest) = dict_update (AList.update (fst p) (snd p) ?d1) rest"
        by (simp add: dict_update_def case_prod_beta)
      from d have dr: "distinct (map fst rest)" and
        disj: "set (map fst rest) \<inter> set (map fst (AList.update (fst p) (snd p) ?d1)) = {}"
        unfolding u rest by auto
      from keys_dict_update_new [OF dr disj] show ?thesis
        unfolding sc step u rest by simp
    next
      assume a: "map fst scores = map name (additional_objectives cfg)"
      from d have dr: "distinct (map fst ?sc)" and
        disj: "set (map fst ?sc) \<inter> set (map fst ?d1) = {}"
        unfolding ks a d1 by auto
      from keys_dict_update_new [OF dr disj] show ?thesis
        unfolding ks a d1 by simp
    qed
  qed
  let ?d2 = "dict_update ?d1 ?sc"
  have t: "''# Training'' \<notin> set ?names" "''# Validation'' \<notin> set ?names"
    using c by auto
  let ?d3 = "dict_update ?d2 [(''# Training'', Size nt)]"
  have d3: "map fst ?d3 = ?names @ [''# Training'']"
    using keys_dict_update_new [of "[(''# Training'', Size nt)]" ?d2] t(1)
    unfolding d2 by auto
  have d4: "map fst (dict_update ?d3 [(''# Validation'', Size nv)])
      = ?names @ [''# Training'', ''# Validation'']"
    using keys_dict_update_new [of "[(''# Validation'', Size nv)]" ?d3] t(2)
    unfolding d3 by auto
  show ?thesis
    unfolding make_evaluation_entry_def Let_def using d4 by simp
qed

text \<open>
  C8, as the code has it. In the entry of a fold, the keys of \<open>all_objective_scores\<close>
  are the primary objective's name, the additional objectives' names, \<open># Training\<close> and
  \<open># Validation\<close>, in this order (the objectives' names being distinct and none of them
  one of the two counts, and the pipeline's \<open>score\<close> listing the objectives in the order
  asked). Its \<open>binary_classification_threshold\<close> is the threshold of the pipeline that
  the fold's pass returned when the problem is binary, and \<open>None\<close> when it is not; that
  pipeline is the fitted clone when \<open>train_pipeline\<close> returned, and the pipeline that was
  passed in when \<open>train_pipeline\<close> raised.
\<close>

theorem entry_keys_and_threshold:
  assumes f: "cv_fold env pipeline automl_config full_X_train full_y_train i train valid st
                = (Inr (entry, stored_pipeline), st')"
    and names: "distinct (map name (objective automl_config # additional_objectives automl_config))"
    and counts: "\<forall>ob \<in> set (objective automl_config # additional_objectives automl_config).
              name ob \<noteq> ''# Training'' \<and> name ob \<noteq> ''# Validation''"
    and order: "\<forall>fp Xs ys Xt yt scores.
              pipeline_score env fp Xs ys
                (objective automl_config # additional_objectives automl_config) Xt yt = Inr scores
              \<longrightarrow> map fst scores
                    = map name (objective automl_config # additional_objectives automl_config)"
  shows "map fst (all_objective_scores entry) =
           map name (objective automl_config # additional_objectives automl_config)
             @ [''# Training'', ''# Validation'']
     \<and> stored_pipeline =
         (case train_pipeline env pipeline (map (\<lambda>j. full_X_train ! j) train)
                 (map (\<lambda>j. full_y_train ! j) train) automl_config False True of
            Inr (fitted, h) \<Rightarrow> fitted
          | Inl e \<Rightarrow> pipeline)
     \<and> binary_classification_threshold entry =
         (if is_binary env (problem_type automl_config) then threshold stored_pipeline else None)"
proof -
  let ?Xt = "map (\<lambda>j. full_X_train ! j) train" and ?Xv = "map (\<lambda>j. full_X_train ! j) valid"
  let ?yt = "map (\<lambda>j. full_y_train ! j) train" and ?yv = "map (\<lambda>j. full_y_train ! j) valid"
  let ?st1 = "log_debug (tab @ tab @ ''Training and scoring on fold '' @ str i) st"
  let ?obs = "objective automl_config # additional_objectives automl_config"
  from cv_fold_Inr [OF f] obtain sc scores where
    t: "train_and_score env pipeline automl_config (Some i) ?Xt ?Xv ?yt ?yv (Some i) ?st1
          = (Inr (sc, scores, stored_pipeline), st')"
    and e: "entry = make_evaluation_entry env automl_config sc scores stored_pipeline
                      (length train) (length valid)"
    by blast
  let ?body = "fst (try_train_and_score env pipeline automl_config (''Fold '' @ str i)
                 ?Xt ?Xv ?yt ?yv ?st1)"
  have "(map fst scores = map name ?obs \<or> map fst scores = map name (additional_objectives automl_config))
      \<and> stored_pipeline =
         (case train_pipeline env pipeline ?Xt ?yt automl_config False True of
            Inr (fitted, h) \<Rightarrow> fitted
          | Inl e \<Rightarrow> pipeline)"
    using train_and_score_Inr [OF t]
  proof
    assume ok: "?body = Inr (sc, scores, stored_pipeline)"
    then have "\<exists>h. train_pipeline env pipeline ?Xt ?yt automl_config False True
                 = Inr (stored_pipeline, h)"
      and "pipeline_score env stored_pipeline ?Xv ?yv ?obs ?Xt ?yt = Inr scores"
      unfolding try_outcome by (auto split: sum.splits prod.splits option.splits)
    with order show ?thesis by auto
  next
    assume "\<exists>e. ?body = Inl (e, stored_pipeline)
              \<and> scores_after_failure automl_config e = Inr (sc, scores)"
    then obtain e where b: "?body = Inl (e, stored_pipeline)"
      and s: "scores_after_failure automl_config e = Inr (sc, scores)" by blast
    from b have "stored_pipeline =
         (case train_pipeline env pipeline ?Xt ?yt automl_config False True of
            Inr (fitted, h) \<Rightarrow> fitted
          | Inl e \<Rightarrow> pipeline)"
      unfolding try_outcome by (auto split: sum.splits prod.splits option.splits)
    with scores_after_failure_keys [OF s names] show ?thesis by auto
  qed
  then have k: "map fst scores = map name ?obs
                \<or> map fst scores = map name (additional_objectives automl_config)"
    and sp: "stored_pipeline =
         (case train_pipeline env pipeline ?Xt ?yt automl_config False True of
            Inr (fitted, h) \<Rightarrow> fitted
          | Inl e \<Rightarrow> pipeline)" by simp_all
  from entry_keys [OF k names counts]
  have keys: "map fst (all_objective_scores entry) = map name ?obs @ [''# Training'', ''# Validation'']"
    unfolding e .
  have th: "binary_classification_threshold entry =
         (if is_binary env (problem_type automl_config) then threshold stored_pipeline else None)"
    unfolding e by (simp add: entry_fields)
  from keys sp th show ?thesis by blast
qed

theorem entry_threshold_counterexample:
  "\<not> isl binary_unfit_outcome
   \<and> is_binary example_env (problem_type binary_config)
   \<and> train_pipeline example_env binary_pipeline [(0, 1), (1, 0), (3, 0)] [0, 0, 1]
       binary_config False True = Inl (Exception ''fit failed'')
   \<and> map binary_classification_threshold (cv_data (result_scores (projr binary_unfit_outcome)))
       = [Some (1 / 2)]
   \<and> filter is_Train_pipeline_call (calls (snd (train_and_score_pipeline example_env
        binary_pipeline binary_config binary_X_unfit binary_y JobLogger_init None None)))
       = [Train_pipeline_call binary_pipeline [(0, 1), (1, 0), (3, 0)] [0, 0, 1]]"
  by (simp add: binary_unfit_outcome_def evaluation_defs example_env_def example_config_def
      binary_config_def binary_pipeline_def binary_X_unfit_def binary_y_def
      encode_classification_target_def example_value_counts_index_def first_occurrences_def
      sort_key_def setdiff1d_def)

theorem entry_keys_and_threshold_witness:
  "\<exists>entry stored_pipeline st'.
     cv_fold example_env binary_pipeline binary_config binary_X [0, 0, 0, 1] 0 [0, 1, 3] [2, 3]
       \<lparr>logger = JobLogger_init, pipeline_cache = [], calls = []\<rparr>
       = (Inr (entry, stored_pipeline), st')
     \<and> map fst (all_objective_scores entry) = [''B'', ''A'', ''# Training'', ''# Validation'']
     \<and> stored_pipeline
         = \<lparr>pipeline_problem_type = BINARY, threshold = Some (1 / 4), component_instances = 1\<rparr>
     \<and> binary_classification_threshold entry = Some (1 / 4)"
proof -
  have "\<exists>entry stored_pipeline st'.
     cv_fold example_env binary_pipeline binary_config binary_X [0, 0, 0, 1] 0 [0, 1, 3] [2, 3]
       \<lparr>logger = JobLogger_init, pipeline_cache = [], calls = []\<rparr>
       = (Inr (entry, stored_pipeline), st')"
    by (simp add: evaluation_defs example_env_def example_config_def binary_config_def
        binary_pipeline_def binary_X_def setdiff1d_def)
  then obtain entry stored_pipeline and st' :: "(nat, nat, unit) state" where
    f: "cv_fold example_env binary_pipeline binary_config binary_X [0, 0, 0, 1] 0 [0, 1, 3] [2, 3]
       \<lparr>logger = JobLogger_init, pipeline_cache = [], calls = []\<rparr>
       = (Inr (entry, stored_pipeline), st')" by blast
  have names: "distinct (map name (objective binary_config # additional_objectives binary_config))"
    by (simp add: binary_config_def example_config_def)
  have counts: "\<forall>ob \<in> set (objective binary_config # additional_objectives binary_config).
      name ob \<noteq> ''# Training'' \<and> name ob \<noteq> ''# Validation''"
    by (simp add: binary_config_def example_config_def)
  have order: "\<forall>fp Xs ys Xt yt scores.
      pipeline_score example_env fp Xs ys
        (objective binary_config # additional_objectives binary_config) Xt yt = Inr scores
      \<longrightarrow> map fst scores = map name (objective binary_config # additional_objectives binary_config)"
    by (auto simp: example_env_def binary_config_def example_config_def split: if_splits)
  have tp: "train_pipeline example_env binary_pipeline
      (map (\<lambda>j. binary_X ! j) [0, 1, 3]) (map (\<lambda>j. [0, 0, 0, 1] ! j) [0, 1, 3])
      binary_config False True
      = Inr (\<lparr>pipeline_problem_type = BINARY, threshold = Some (1 / 4), component_instances = 1\<rparr>,
             Some 4)"
    by (simp add: train_pipeline_def example_env_def binary_config_def example_config_def
        binary_pipeline_def binary_X_def)
  from entry_keys_and_threshold [OF f names counts order]
  have "map fst (all_objective_scores entry) = [''B'', ''A'', ''# Training'', ''# Validation'']"
    and sp: "stored_pipeline
         = \<lparr>pipeline_problem_type = BINARY, threshold = Some (1 / 4), component_instances = 1\<rparr>"
    and th: "binary_classification_threshold entry =
         (if is_binary example_env (problem_type binary_config)
          then threshold stored_pipeline else None)"
    unfolding tp by (simp_all add: binary_config_def example_config_def)
  moreover from th sp have "binary_classification_threshold entry = Some (1 / 4)"
    by (simp add: example_env_def binary_config_def)
  ultimately show ?thesis using f by - (intro exI conjI, assumption+)
qed

section \<open>The re-encoded target\<close>

lemmas encoding_defs =
  encode_classification_target_def example_value_counts_index_def first_occurrences_def sort_key_def
  setdiff1d_def

text \<open>
  The index of the examples is a value-counts index; and a target in which no two values
  are equally frequent has one value-counts index only.
\<close>

lemma example_value_counts_order:
  "value_counts_order y (example_value_counts_index y)"
proof -
  let ?f = "\<lambda>v. int (count_list y v)"
  have "sorted (map ?f (sort_key ?f (first_occurrences y)))" by (rule sorted_sort_key)
  then have "sorted_wrt (\<lambda>a b. ?f a \<le> ?f b) (sort_key ?f (first_occurrences y))"
    by (simp add: sorted_map)
  then have "sorted_wrt (\<lambda>a b. count_list y b \<le> count_list y a)
               (example_value_counts_index y)"
    by (simp add: example_value_counts_index_def sorted_wrt_rev)
  then show ?thesis
    by (simp add: value_counts_order_def example_value_counts_index_def first_occurrences_def)
qed

lemma value_counts_order_unique:
  assumes inj: "inj_on (count_list y) (set y)"
    and a: "value_counts_order y a" and b: "value_counts_order y b"
  shows "a = b"
proof -
  have key: "sorted (map (count_list y) (rev c)) \<and> distinct (map (count_list y) (rev c))
             \<and> set (map (count_list y) (rev c)) = count_list y ` set y"
    if c: "value_counts_order y c" for c
  proof -
    from c have d: "distinct c" and s: "set c = set y"
      and o: "sorted_wrt (\<lambda>a b. count_list y b \<le> count_list y a) c"
      by (simp_all add: value_counts_order_def)
    from o have "sorted (map (count_list y) (rev c))"
      by (simp add: sorted_map sorted_wrt_rev)
    moreover from d s inj have "distinct (map (count_list y) (rev c))"
      by (simp add: distinct_map)
    moreover from s have "set (map (count_list y) (rev c)) = count_list y ` set y" by simp
    ultimately show ?thesis by simp
  qed
  from key [OF a] key [OF b]
  have "map (count_list y) (rev a) = map (count_list y) (rev b)"
    by (intro sorted_distinct_set_unique) simp_all
  moreover from a b inj have "inj_on (count_list y) (set (rev a) \<union> set (rev b))"
    by (simp add: value_counts_order_def)
  ultimately have "rev a = rev b" by (rule inj_on_map_eq_map [THEN iffD1, rotated])
  then show ?thesis by simp
qed

text \<open>
  The classification targets of the examples have no two equally frequent values, so
  their value-counts indexes are the same under every order among equal counts.
\<close>

lemma example_targets_without_ties:
  "inj_on (count_list binary_y) (set binary_y)
   \<and> inj_on (count_list binary_holdout_y) (set binary_holdout_y)
   \<and> inj_on (count_list multiclass_y) (set multiclass_y)
   \<and> inj_on (count_list skewed_y) (set skewed_y)"
  by (simp add: binary_y_def binary_holdout_y_def multiclass_y_def skewed_y_def)

lemma binary_index_determined:
  assumes "value_counts_order binary_y index"
  shows "index = [5, 7]"
proof -
  have "inj_on (count_list binary_y) (set binary_y)" by (simp add: binary_y_def)
  from value_counts_order_unique [OF this assms example_value_counts_order]
  show ?thesis
    by (simp add: example_value_counts_index_def first_occurrences_def sort_key_def binary_y_def)
qed

lemma binary_holdout_index_determined:
  assumes "value_counts_order binary_holdout_y index"
  shows "index = [7, 5]"
proof -
  have "inj_on (count_list binary_holdout_y) (set binary_holdout_y)"
    by (simp add: binary_holdout_y_def)
  from value_counts_order_unique [OF this assms example_value_counts_order]
  show ?thesis
    by (simp add: example_value_counts_index_def first_occurrences_def sort_key_def
        binary_holdout_y_def)
qed

lemma skewed_index_determined:
  assumes "value_counts_order skewed_y index"
  shows "index = [2, 1, 0]"
proof -
  have "inj_on (count_list skewed_y) (set skewed_y)" by (simp add: skewed_y_def)
  from value_counts_order_unique [OF this assms example_value_counts_order]
  show ?thesis
    by (simp add: example_value_counts_index_def first_occurrences_def sort_key_def skewed_y_def)
qed

text \<open>
  Every value of \<open>y\<close> is a key of \<open>y_mapping\<close>, so \<open>y.map(y_mapping)\<close> leaves no value
  without a code: the encoding replaces each value by its position in the value counts.
\<close>

lemma encode_classification_target_codes:
  assumes index: "value_counts_order y (value_counts_index env y)"
  shows "encode_classification_target env y =
     map (\<lambda>v. int (the (map_of (zip (value_counts_index env y)
                                   [0..<length (value_counts_index env y)]) v))) y
   \<and> (\<forall>v \<in> set y. \<exists>c < length (value_counts_index env y).
          map_of (zip (value_counts_index env y) [0..<length (value_counts_index env y)]) v
            = Some c
          \<and> value_counts_index env y ! c = v)"
proof -
  let ?idx = "value_counts_index env y"
  let ?pairs = "zip ?idx (map int [0..<length ?idx])"
  from index have di: "distinct ?idx" and si: "set ?idx = set y"
    by (simp_all add: value_counts_order_def)
  have keys: "map fst ?pairs = ?idx" by (simp add: map_fst_zip)
  have d: "distinct (map fst ?pairs)" unfolding keys by (rule di)
  have "map_of (dict_of ?pairs) = map_of (rev ?pairs)"
    by (simp add: dict_of_def map_of_dict_update del: map_of_append)
  then have m: "map_of (dict_of ?pairs) = map_of ?pairs"
    by (simp add: map_of_rev_distinct [OF d])
  have zm: "?pairs = map (\<lambda>(k, c). (k, int c)) (zip ?idx [0..<length ?idx])"
    by (simp add: zip_map2)
  have mo: "map_of ?pairs = map_option int \<circ> map_of (zip ?idx [0..<length ?idx])"
    unfolding zm by (rule map_of_map)
  have look: "\<exists>c < length ?idx. map_of (zip ?idx [0..<length ?idx]) v = Some c \<and> ?idx ! c = v"
    if v: "v \<in> set y" for v
  proof -
    from v have "v \<in> set ?idx" by (simp add: si)
    then obtain c where c: "c < length ?idx" "?idx ! c = v" by (auto simp: in_set_conv_nth)
    then have "(v, c) \<in> set (zip ?idx [0..<length ?idx])"
      by (auto simp: set_zip)
    moreover have "distinct (map fst (zip ?idx [0..<length ?idx]))"
      by (simp add: map_fst_zip di)
    ultimately have "map_of (zip ?idx [0..<length ?idx]) v = Some c" by (rule map_of_is_SomeI [rotated])
    with c show ?thesis by blast
  qed
  have "encode_classification_target env y =
     map (\<lambda>v. int (the (map_of (zip ?idx [0..<length ?idx]) v))) y"
    unfolding encode_classification_target_def Let_def m mo
  proof (rule map_cong [OF refl])
    fix v assume "v \<in> set y"
    from look [OF this] obtain c where "map_of (zip ?idx [0..<length ?idx]) v = Some c" by blast
    then show "(case (map_option int \<circ> map_of (zip ?idx [0..<length ?idx])) v of
                 None \<Rightarrow> v | Some code \<Rightarrow> code)
               = int (the (map_of (zip ?idx [0..<length ?idx]) v))"
      by simp
  qed
  with look show ?thesis by blast
qed

text \<open>
  C5, on the binary problem with labels 5, 5, 5, 7 and the holdout labels 7, 7, 5. The
  slices of the original target at the fold's positions are 5, 5, 7 and 5, 7; what
  \<open>train_pipeline\<close> and the pipeline's \<open>score\<close> receive are the codes 0, 0, 1 and 0, 1,
  in the fold and in the holdout pass alike, the holdout target coded by its own counts
  (there 7 is 0 and 5 is 1). With a split whose training slice lacks label 7, the message
  of the exception names the code 1.
\<close>

theorem encoded_target_reaches_pipeline:
  "map (\<lambda>j. binary_y ! j) [0, 1, 3] = [5, 5, 7]
   \<and> map (\<lambda>j. binary_y ! j) [2, 3] = [5, 7]
   \<and> calls (snd (train_and_score_pipeline example_env binary_pipeline binary_config binary_X
        binary_y JobLogger_init (Some binary_holdout_X) (Some binary_holdout_y))) =
       [Train_pipeline_call binary_pipeline [(0, 0), (1, 0), (3, 0)] [0, 0, 1],
        Score_call
          \<lparr>pipeline_problem_type = BINARY, threshold = Some (1 / 4), component_instances = 1\<rparr>
          [(2, 0), (3, 0)] [0, 1] [Objective ''B'', Objective ''A'']
          [(0, 0), (1, 0), (3, 0)] [0, 0, 1],
        Train_pipeline_call binary_pipeline binary_X [0, 0, 0, 1],
        Score_call
          \<lparr>pipeline_problem_type = BINARY, threshold = Some (1 / 4), component_instances = 1\<rparr>
          binary_holdout_X [0, 0, 1] [Objective ''B'', Objective ''A'']
          binary_X [0, 0, 0, 1]]
   \<and> fst (train_and_score_pipeline example_env binary_pipeline binary_config_missing binary_X
        binary_y JobLogger_init None None) =
       Inl (Exception ''Missing target values in the training set after data split: {1}. '')"
  by (simp add: evaluation_defs encoding_defs example_env_def example_config_def
      binary_config_def binary_config_missing_def binary_pipeline_def binary_X_def binary_y_def
      binary_holdout_X_def binary_holdout_y_def str.simps digit_def)

section \<open>The unbound loop variable and the re-encoded target, evaluated\<close>

text \<open>
  \<open>_train_and_score\<close> builds its log prefix, and the \<open>fold_num\<close> it hands to the error
  callback, from the variable \<open>i\<close> of the enclosing loop and not from its own parameter
  \<open>fold_num\<close>. After a loop over no fold \<open>i\<close> is unbound, so the holdout pass of an
  evaluation whose data splitter yields no fold raises \<open>NameError\<close> on entry, whatever
  the collaborators are.
\<close>

lemma holdout_pass_unbound_loop_variable:
  assumes "data_splitter automl_config full_X_train
             (if is_classification env (problem_type automl_config)
              then encode_classification_target env full_y_train else full_y_train) = []"
  shows "fst (train_and_score_pipeline env pipeline automl_config full_X_train full_y_train
                job_logger (Some X_holdout) (Some y_holdout)) = Inl (NameError ''i'')"
proof (cases "is_classification env (problem_type automl_config)")
  case True
  with assms show ?thesis
    by (simp add: train_and_score_pipeline_def Let_def loop_variable_after_def
        train_and_score_unbound)
next
  case False
  with assms show ?thesis
    by (simp add: train_and_score_pipeline_def Let_def loop_variable_after_def
        train_and_score_unbound)
qed

text \<open>
  C1. A data splitter that yields no fold (\<open>k = 0\<close>), with a holdout set: the evaluation
  does not return a result whose \<open>cv_data\<close> has no entry, it raises \<open>NameError\<close> for
  the unbound loop variable \<open>i\<close>. Without the holdout set the same evaluation returns a
  result, and its \<open>cv_data\<close> is empty.
\<close>

theorem no_fold_evaluation_with_holdout_raises:
  "data_splitter no_fold_config example_X example_y = []
   \<and> fst (train_and_score_pipeline example_env example_pipeline no_fold_config example_X
        example_y JobLogger_init (Some holdout_X) (Some holdout_y)) = Inl (NameError ''i'')
   \<and> map_sum id (\<lambda>res. cv_data (result_scores res))
        (fst (train_and_score_pipeline example_env example_pipeline no_fold_config example_X
           example_y JobLogger_init None None)) = Inr []"
  by (simp add: evaluation_defs example_env_def example_config_def no_fold_config_def
      example_pipeline_def example_X_def example_y_def holdout_X_def holdout_y_def
      str.simps digit_def)

text \<open>
  C6. The multiclass target 0, 1, 1, 2, 2, 2 with one fold whose training slice (rows 0,
  1, 2: classes 0, 1, 1) lacks class 2 and whose validation slice (rows 0, 1, 3) has
  every class. The target value missing from the training slice is 2. The value counts
  index of the target is 2, 1, 0, so the loop slices the codes 2, 1, 1, 0, 0, 0, and the
  message of the exception names 0: the code of class 2, and as a target value one that
  the training slice has.
\<close>

theorem missing_class_named_by_code:
  "map (\<lambda>j. skewed_y ! j) [0, 1, 2] = [0, 1, 1]
   \<and> map (\<lambda>j. skewed_y ! j) [0, 1, 3] = [0, 1, 2]
   \<and> setdiff1d skewed_y [0, 1, 1] = [2]
   \<and> setdiff1d skewed_y [0, 1, 2] = []
   \<and> value_counts_index example_env skewed_y = [2, 1, 0]
   \<and> fst (train_and_score_pipeline example_env example_pipeline skewed_config multiclass_X
        skewed_y JobLogger_init None None) =
       Inl (Exception ''Missing target values in the training set after data split: {0}. '')"
  by (simp add: evaluation_defs encoding_defs example_env_def example_config_def
      skewed_config_def skewed_y_def multiclass_X_def example_pipeline_def str.simps digit_def)

text \<open>
  C9. With a holdout set and a data splitter that yields no fold, no pass runs after the
  loop and there is no result: the evaluation raises \<open>NameError\<close> after the log line
  that announces the pass, with no call of \<open>train_pipeline\<close> or \<open>score\<close> made. And in
  the binary problem with the labels 5, 5, 5, 7 and the holdout labels 7, 7, 5, the pass
  after the fold's two calls trains on the codes 0, 0, 0, 1 and scores on the target 0,
  0, 1: the holdout target re-encoded by its own value counts, in which label 5 is 1
  while it is 0 in the training slice. The scoring slice is not the holdout set.
\<close>

theorem holdout_pass_on_no_fold_and_recoded_target:
  "train_and_score_pipeline example_env example_pipeline no_fold_config example_X
        example_y JobLogger_init (Some holdout_X) (Some holdout_y)
     = (Inl (NameError ''i''),
        \<lparr>logger = debug (tab @ tab @ ''Training and scoring entire dataset'')
           (info (tab @ ''Starting holdout set scoring'')
             (info (tab @ ''Finished cross validation - mean B: nan'')
               (info (tab @ ''Starting cross validation'') JobLogger_init))),
         pipeline_cache = [], calls = []\<rparr>)
   \<and> binary_y = [5, 5, 5, 7] \<and> binary_holdout_y = [7, 7, 5]
   \<and> drop 2 (calls (snd (train_and_score_pipeline example_env binary_pipeline binary_config
        binary_X binary_y JobLogger_init (Some binary_holdout_X) (Some binary_holdout_y)))) =
       [Train_pipeline_call binary_pipeline binary_X [0, 0, 0, 1],
        Score_call
          \<lparr>pipeline_problem_type = BINARY, threshold = Some (1 / 4), component_instances = 1\<rparr>
          binary_holdout_X [0, 0, 1] [Objective ''B'', Objective ''A'']
          binary_X [0, 0, 0, 1]]"
  by (simp add: evaluation_defs encoding_defs example_env_def example_config_def
      no_fold_config_def example_pipeline_def example_X_def example_y_def holdout_X_def
      holdout_y_def binary_config_def binary_pipeline_def binary_X_def binary_y_def
      binary_holdout_X_def binary_holdout_y_def str.simps digit_def)


end
